theory Spec2Isabelle
  imports Complex_Main "HOL-Library.AList" "HOL-Library.Monad_Syntax"
begin

text \<open>
  Morpho numbers are IEEE doubles. The development idealises them as \<open>real\<close>, except
  where a statement is about rounding itself (the compensated summation), where the
  arithmetic operations are parameters. An optional argument that defaults to \<open>nil\<close> is
  an \<open>option\<close>; a runtime error or a \<open>false\<close> return of a C function is the value
  \<open>None\<close>.
\<close>

section \<open>Optimization problems: energies and constraints (optimize.morpho)\<close>

text \<open>A functional object is represented by its \<open>total\<close> method, which takes the mesh
  and, when one is passed, the selection.\<close>

record ('m, 's) functional =
  total :: "'m \<Rightarrow> 's option \<Rightarrow> real"

text \<open>class Constraint: \<open>init (func, target)\<close> sets the functional and the target and
  leaves field and selection \<open>nil\<close> and onesided \<open>false\<close>.\<close>

record ('m, 's, 'fl) Constraint =
  c_functional :: "('m, 's) functional"
  c_target :: real
  c_field :: "'fl option"
  c_selection :: "'s option"
  c_onesided :: bool
  c_prefactor :: "real option"

definition Constraint_init :: "('m, 's) functional \<Rightarrow> real \<Rightarrow> ('m, 's, 'fl) Constraint" where
  "Constraint_init func target =
     \<lparr> c_functional = func, c_target = target, c_field = None, c_selection = None,
       c_onesided = False, c_prefactor = None \<rparr>"

record ('m, 's) Energy =
  e_functional :: "('m, 's) functional"
  e_selection :: "'s option"
  e_prefactor :: "real option"

record ('m, 's, 'fl) OptimizationProblem =
  p_mesh :: 'm
  p_fields :: "'fl list"
  p_energies :: "('m, 's) Energy list"
  p_constraints :: "('m, 's, 'fl) Constraint list"
  p_localconstraints :: "('m, 's, 'fl) Constraint list"

definition OptimizationProblem_init :: "'m \<Rightarrow> ('m, 's, 'fl) OptimizationProblem" where
  "OptimizationProblem_init m =
     \<lparr> p_mesh = m, p_fields = [], p_energies = [], p_constraints = [], p_localconstraints = [] \<rparr>"

text \<open>\<open>addconstraint(functional, selection=nil, field=nil)\<close>: the target is always
  computed, from \<open>functional.total(self.mesh, selection)\<close> when a selection is given and
  from \<open>functional.total(self.mesh)\<close> otherwise. The method has no target parameter.
  The result is the new constraint and the updated problem.\<close>

definition addconstraint ::
  "('m, 's, 'fl) OptimizationProblem \<Rightarrow> ('m, 's) functional \<Rightarrow> 's option \<Rightarrow> 'fl option
     \<Rightarrow> ('m, 's, 'fl) Constraint \<times> ('m, 's, 'fl) OptimizationProblem" where
  "addconstraint self func sel fld =
     (let target = (case sel of
                      Some s \<Rightarrow> total func (p_mesh self) (Some s)
                    | None \<Rightarrow> total func (p_mesh self) None);
          cons = (Constraint_init func target)
                   \<lparr> c_selection := sel, c_field := fld, c_prefactor := None \<rparr>
      in (cons, self \<lparr> p_constraints := p_constraints self @ [cons] \<rparr>))"

text \<open>\<open>addlocalconstraint(functional, selection=nil, field=nil, onesided=false, target=0)\<close>:
  the target is the argument, whose default is the number 0; the functional is not
  evaluated. An omitted target is \<open>None\<close> here.\<close>

definition addlocalconstraint ::
  "('m, 's, 'fl) OptimizationProblem \<Rightarrow> ('m, 's) functional \<Rightarrow> 's option \<Rightarrow> 'fl option
     \<Rightarrow> bool \<Rightarrow> real option
     \<Rightarrow> ('m, 's, 'fl) Constraint \<times> ('m, 's, 'fl) OptimizationProblem" where
  "addlocalconstraint self func sel fld onesided target =
     (let tgt = (case target of None \<Rightarrow> 0 | Some t \<Rightarrow> t);
          cons = (Constraint_init func tgt)
                   \<lparr> c_selection := sel, c_onesided := onesided, c_field := fld,
                     c_prefactor := None \<rparr>
      in (cons, self \<lparr> p_localconstraints := p_localconstraints self @ [cons] \<rparr>))"

section \<open>Brent's one-dimensional minimizer (optimize.morpho)\<close>

definition brent_zeps :: real where
  "brent_zeps = 1 / 10 ^ 10"

definition brent_cgold :: real where
  "brent_cgold = 3819660 / 10 ^ 7"

text \<open>\<open>sign(x, y)\<close>, which returns \<open>sign(y)*|x|\<close> and 0 for \<open>y = 0\<close>.\<close>

definition brent_sign :: "real \<Rightarrow> real \<Rightarrow> real" where
  "brent_sign x y = (if y < 0 then - \<bar>x\<bar> else if y > 0 then \<bar>x\<bar> else 0)"

text \<open>The variables of \<open>brent\<close>: the minimum lies between \<open>a\<close> and \<open>b\<close>; \<open>d\<close> is the
  last step and \<open>e\<close> the step before it; \<open>x\<close>, \<open>w\<close>, \<open>v\<close> are the best points so
  far with their function values.\<close>

record brent_state =
  br_a :: real
  br_b :: real
  br_d :: real
  br_e :: real
  br_v :: real
  br_w :: real
  br_x :: real
  br_fv :: real
  br_fw :: real
  br_fx :: real

definition brent_xm :: "brent_state \<Rightarrow> real" where
  "brent_xm bs = 0.5 * (br_a bs + br_b bs)"

definition brent_tol1 :: "real \<Rightarrow> brent_state \<Rightarrow> real" where
  "brent_tol1 tol bs = tol * \<bar>br_x bs\<bar> + brent_zeps"

definition brent_tol2 :: "real \<Rightarrow> brent_state \<Rightarrow> real" where
  "brent_tol2 tol bs = 2 * brent_tol1 tol bs"

text \<open>\<open>if (abs(x-xm) <= (tol2-0.5*(b-a))) return [x, fx]\<close>\<close>

definition brent_converged :: "real \<Rightarrow> brent_state \<Rightarrow> bool" where
  "brent_converged tol bs =
     (\<bar>br_x bs - brent_xm bs\<bar> \<le> brent_tol2 tol bs - 0.5 * (br_b bs - br_a bs))"

text \<open>The parabola through the three points: \<open>p\<close> and \<open>q\<close> after \<open>if (q>0) p = -p\<close> and
  \<open>q=abs(q)\<close>.\<close>

definition brent_p :: "brent_state \<Rightarrow> real" where
  "brent_p bs =
     (let r = (br_x bs - br_w bs) * (br_fx bs - br_fv bs);
          q = (br_x bs - br_v bs) * (br_fx bs - br_fw bs);
          p = (br_x bs - br_v bs) * q - (br_x bs - br_w bs) * r
      in if 2 * (q - r) > 0 then - p else p)"

definition brent_q :: "brent_state \<Rightarrow> real" where
  "brent_q bs =
     (let r = (br_x bs - br_w bs) * (br_fx bs - br_fv bs);
          q = (br_x bs - br_v bs) * (br_fx bs - br_fw bs)
      in \<bar>2 * (q - r)\<bar>)"

text \<open>The golden section step: \<open>if (x>=xm) e=a-x else e=b-x\<close>, \<open>d = cgold*e\<close>. The result
  is the pair of the new \<open>d\<close> and the new \<open>e\<close>.\<close>

definition brent_golden :: "brent_state \<Rightarrow> real \<times> real" where
  "brent_golden bs =
     (let e = (if br_x bs \<ge> brent_xm bs then br_a bs - br_x bs else br_b bs - br_x bs)
      in (brent_cgold * e, e))"

text \<open>The test that rejects the parabolic fit; \<open>etemp\<close> is the old \<open>e\<close>.\<close>

definition brent_fit_bad :: "brent_state \<Rightarrow> bool" where
  "brent_fit_bad bs =
     (\<bar>brent_p bs\<bar> \<ge> \<bar>0.5 * brent_q bs * br_e bs\<bar>
      \<or> brent_p bs \<le> brent_q bs * (br_a bs - br_x bs)
      \<or> brent_p bs \<ge> brent_q bs * (br_b bs - br_x bs))"

text \<open>The parabolic step: \<open>d=p/q\<close>, replaced by \<open>sign(tol1, xm-x)\<close> when \<open>u=x+d\<close> is
  within \<open>tol2\<close> of an end of the bracket; the new \<open>e\<close> is the old \<open>d\<close>.\<close>

definition brent_parabolic :: "real \<Rightarrow> brent_state \<Rightarrow> real \<times> real" where
  "brent_parabolic tol bs =
     (let d = brent_p bs / brent_q bs; u = br_x bs + d
      in (if u - br_a bs < brent_tol2 tol bs \<or> br_b bs - u < brent_tol2 tol bs
          then brent_sign (brent_tol1 tol bs) (brent_xm bs - br_x bs) else d,
          br_d bs))"

text \<open>The new \<open>d\<close> and \<open>e\<close> of one pass.\<close>

definition brent_step :: "real \<Rightarrow> brent_state \<Rightarrow> real \<times> real" where
  "brent_step tol bs =
     (if \<bar>br_e bs\<bar> > brent_tol1 tol bs
      then (if brent_fit_bad bs then brent_golden bs else brent_parabolic tol bs)
      else brent_golden bs)"

text \<open>\<open>if (abs(d)>=tol1) u=x+d else u=x+sign(tol1, d)\<close>\<close>

definition brent_trial :: "real \<Rightarrow> brent_state \<Rightarrow> real \<Rightarrow> real" where
  "brent_trial tol bs d =
     (if \<bar>d\<bar> \<ge> brent_tol1 tol bs then br_x bs + d
      else br_x bs + brent_sign (brent_tol1 tol bs) d)"

text \<open>The update of the bracket with the trial point \<open>u\<close> and its value \<open>fu\<close>.\<close>

definition brent_update :: "brent_state \<Rightarrow> real \<Rightarrow> real \<Rightarrow> brent_state" where
  "brent_update bs u fu =
     (if fu \<le> br_fx bs then
        (if u \<ge> br_x bs then bs\<lparr> br_a := br_x bs \<rparr> else bs\<lparr> br_b := br_x bs \<rparr>)
          \<lparr> br_v := br_w bs, br_w := br_x bs, br_x := u,
            br_fv := br_fw bs, br_fw := br_fx bs, br_fx := fu \<rparr>
      else
        (let bs1 = (if u < br_x bs then bs\<lparr> br_a := u \<rparr> else bs\<lparr> br_b := u \<rparr>)
         in if fu \<le> br_fw bs \<or> br_w bs = br_x bs
            then bs1\<lparr> br_v := br_w bs, br_w := u, br_fv := br_fw bs, br_fw := fu \<rparr>
            else if fu \<le> br_fv bs \<or> br_v bs = br_x bs \<or> br_v bs = br_w bs
            then bs1\<lparr> br_v := u, br_fv := fu \<rparr>
            else bs1))"

text \<open>
  The function to minimise has effects (it is \<open>energywithstepsize\<close> of an optimizer): it
  takes a state and returns the value and the new state, or \<open>None\<close> when it raises an
  error. \<open>brent_pass\<close> is the body of the loop after the convergence test: the step, the
  evaluation at the trial point and the update of the bracket.
\<close>

definition brent_pass :: "(real \<Rightarrow> 's \<Rightarrow> (real \<times> 's) option) \<Rightarrow> real \<Rightarrow> brent_state \<Rightarrow> 's
    \<Rightarrow> (brent_state \<times> 's) option" where
  "brent_pass func tol bs st =
     (let de = brent_step tol bs;
          u = brent_trial tol bs (fst de)
      in (case func u st of
            None \<Rightarrow> None
          | Some (fu, st') \<Rightarrow>
              Some (brent_update (bs\<lparr> br_d := fst de, br_e := snd de \<rparr>) u fu, st')))"

text \<open>\<open>brent_loop\<close> is the loop \<open>for (iter in 0...itermax)\<close> with the number of passes that
  remain; it returns \<open>[x, fx]\<close>.\<close>

fun brent_loop :: "(real \<Rightarrow> 's \<Rightarrow> (real \<times> 's) option) \<Rightarrow> real \<Rightarrow> nat \<Rightarrow> brent_state \<Rightarrow> 's
    \<Rightarrow> ((real \<times> real) \<times> 's) option" where
  "brent_loop func tol 0 bs st = Some ((br_x bs, br_fx bs), st)"
| "brent_loop func tol (Suc n) bs st =
     (if brent_converged tol bs then Some ((br_x bs, br_fx bs), st)
      else (case brent_pass func tol bs st of
              None \<Rightarrow> None
            | Some (bs', st') \<Rightarrow> brent_loop func tol n bs' st'))"

text \<open>The state before the loop, from the bracket and the value \<open>func(bracket[1])\<close>.\<close>

definition brent_init :: "real \<times> real \<times> real \<Rightarrow> real \<Rightarrow> brent_state" where
  "brent_init bracket f1 =
     (case bracket of (k0, k1, k2) \<Rightarrow>
        \<lparr> br_a = (if k0 < k2 then k0 else k2), br_b = (if k0 > k2 then k0 else k2),
          br_d = 0, br_e = 0, br_v = k1, br_w = k1, br_x = k1,
          br_fv = f1, br_fw = f1, br_fx = f1 \<rparr>)"

definition brent :: "real \<times> real \<times> real \<Rightarrow> (real \<Rightarrow> 's \<Rightarrow> (real \<times> 's) option) \<Rightarrow> real \<Rightarrow> nat
    \<Rightarrow> 's \<Rightarrow> ((real \<times> real) \<times> 's) option" where
  "brent bracket func tol itermax st =
     (case func (fst (snd bracket)) st of
        None \<Rightarrow> None
      | Some (f1, st') \<Rightarrow> brent_loop func tol itermax (brent_init bracket f1) st')"

section \<open>Optimizers (optimize.morpho)\<close>

text \<open>
  The target of an optimizer is the vertex matrix of the problem's mesh (ShapeOptimizer)
  or a field (FieldOptimizer). Its data is a vector of numbers. Matrices and fields are
  objects that are shared by reference and updated in place, so the model has a store from
  addresses to vectors, with the next free address; \<open>target_ref\<close> is the address of the
  object that the mesh holds as its vertex matrix, respectively of the field.
\<close>

type_synonym vec = "real list"

text \<open>
  What an optimizer asks of the functionals of its problem, as functions of the data of the
  target; each may raise an error (\<open>None\<close>). \<open>totalforcewithconstraints\<close> also finds the
  active local constraints, which the optimizer keeps in \<open>lcactive\<close>; the reprojections
  read them.
\<close>

record 'lc problem_ops =
  po_totalenergy :: "vec \<Rightarrow> real option"
  po_totalforcewithconstraints :: "vec \<Rightarrow> (vec \<times> 'lc) option"
  po_initlocalconstraints :: "vec \<Rightarrow> 'lc option"
  po_reprojectlocalconstraints :: "'lc \<Rightarrow> vec \<Rightarrow> vec option"
  po_reprojectconstraints :: "'lc \<Rightarrow> vec \<Rightarrow> vec option"

record 'lc optimizer =
  heap :: "nat \<Rightarrow> vec"
  heap_next :: nat
  target_ref :: nat
  force :: "vec option"
  lcactive :: "'lc option"
  stepsize :: real
  steplimit :: real
  energy :: "real list"
  etol :: real
  linmintol :: real
  linminmax :: nat

datatype optimizer_kind = ShapeOptimizer | FieldOptimizer

text \<open>\<open>a.acc(lambda, b)\<close>, which is \<open>matrix_accumulate\<close>: a + lambda*b, an error when the
  dimensions differ.\<close>

definition vec_acc :: "vec \<Rightarrow> real \<Rightarrow> vec \<Rightarrow> vec option" where
  "vec_acc a lam b =
     (if length a = length b then Some (map (\<lambda>(x, y). x + lam * y) (zip a b)) else None)"

text \<open>\<open>gettarget()\<close> returns the object itself.\<close>

definition gettarget :: "'lc optimizer \<Rightarrow> nat" where
  "gettarget self = target_ref self"

text \<open>\<open>clone()\<close> makes a new object with the same data.\<close>

definition clone :: "nat \<Rightarrow> 'lc optimizer \<Rightarrow> nat \<times> 'lc optimizer" where
  "clone r self =
     (heap_next self,
      self\<lparr> heap := (heap self)(heap_next self := heap self r),
            heap_next := Suc (heap_next self) \<rparr>)"

text \<open>Modelled from the spec: \<open>Mesh.setvertexmatrix\<close> and \<open>Field.assign\<close> (mesh.c and
  field.c are not among the sources). \<open>settarget(v)\<close> of a ShapeOptimizer makes \<open>v\<close> the
  vertex matrix of the mesh, as \<open>MeshBuilder.build\<close> uses it; that of a FieldOptimizer
  copies the data of \<open>v\<close> into the field.\<close>

definition settarget :: "optimizer_kind \<Rightarrow> nat \<Rightarrow> 'lc optimizer \<Rightarrow> 'lc optimizer" where
  "settarget kind v self =
     (case kind of
        ShapeOptimizer \<Rightarrow> self\<lparr> target_ref := v \<rparr>
      | FieldOptimizer \<Rightarrow> self\<lparr> heap := (heap self)(target_ref self := heap self v) \<rparr>)"

definition target_data :: "'lc optimizer \<Rightarrow> vec" where
  "target_data self = heap self (target_ref self)"

definition totalenergy :: "'lc problem_ops \<Rightarrow> 'lc optimizer \<Rightarrow> real option" where
  "totalenergy ops self = po_totalenergy ops (target_data self)"

text \<open>\<open>step(stepsize)\<close>: nothing without a force; otherwise the target moves in
  place, the active local constraints are found again, and the target is reprojected.\<close>

definition step :: "'lc problem_ops \<Rightarrow> real \<Rightarrow> 'lc optimizer \<Rightarrow> 'lc optimizer option" where
  "step ops sz self =
     (case force self of
        None \<Rightarrow> Some self
      | Some frc \<Rightarrow>
          do {
            v1 \<leftarrow> vec_acc (heap self (gettarget self)) (- sz) frc;
            lc \<leftarrow> po_initlocalconstraints ops v1;
            v2 \<leftarrow> po_reprojectlocalconstraints ops lc v1;
            v3 \<leftarrow> po_reprojectconstraints ops lc v2;
            Some (self\<lparr> heap := (heap self)(gettarget self := v3), lcactive := Some lc \<rparr>)
          })"

text \<open>\<open>energywithstepsize(size)\<close>\<close>

definition energywithstepsize :: "'lc problem_ops \<Rightarrow> optimizer_kind \<Rightarrow> real \<Rightarrow> 'lc optimizer
    \<Rightarrow> (real \<times> 'lc optimizer) option" where
  "energywithstepsize ops kind sz self =
     (let target = gettarget self;
          (vsave, self1) = clone target self
      in do {
           self2 \<leftarrow> step ops sz self1;
           en \<leftarrow> totalenergy ops self2;
           Some (en, settarget kind vsave self2)
         })"

text \<open>The step sizes \<open>s\<close> and the energies \<open>bracket\<close> of \<open>bracketstepsize\<close>.\<close>

record stepbracket =
  s0 :: real
  s1 :: real
  s2 :: real
  bracket0 :: real
  bracket1 :: real
  bracket2 :: real

text \<open>The negation of the loop condition: \<open>bracket[1]<bracket[0] && bracket[1]<bracket[2]\<close>.\<close>

definition bracketed :: "stepbracket \<Rightarrow> bool" where
  "bracketed br = (bracket1 br < bracket0 br \<and> bracket1 br < bracket2 br)"

text \<open>
  The loop of \<open>bracketstepsize\<close> with the energy function as a parameter. The outer
  \<open>None\<close> is an error raised by the energy function; the inner \<open>None\<close> is the return value
  \<open>nil\<close>. After a pass, \<open>iter>10\<close> is tested before \<open>iter\<close> is incremented.
\<close>

function bracket_loop :: "(real \<Rightarrow> 's \<Rightarrow> (real \<times> 's) option) \<Rightarrow> stepbracket \<Rightarrow> nat \<Rightarrow> 's
    \<Rightarrow> (stepbracket option \<times> 's) option" where
  "bracket_loop func br iter st =
     (if bracketed br then Some (Some br, st)
      else if bracket2 br < bracket1 br then
        (case func (2 * s2 br) st of
           None \<Rightarrow> None
         | Some (e2, st') \<Rightarrow>
             if iter > 10 then Some (None, st')
             else bracket_loop func
                    (br\<lparr> s1 := s2 br, s2 := 2 * s2 br, bracket1 := bracket2 br, bracket2 := e2 \<rparr>)
                    (iter + 1) st')
      else if bracket1 br > bracket0 br then
        (case func (s1 br / 2) st of
           None \<Rightarrow> None
         | Some (e1, st') \<Rightarrow>
             if iter > 10 then Some (None, st')
             else bracket_loop func (br\<lparr> s1 := s1 br / 2, bracket1 := e1 \<rparr>) (iter + 1) st')
      else Some (None, st))"
  by pat_completeness auto
termination
  by (relation "measure (\<lambda>(func, br, iter, st). 11 - iter)") auto

declare bracket_loop.simps [simp del]

definition bracketstepsize :: "'lc problem_ops \<Rightarrow> optimizer_kind \<Rightarrow> 'lc optimizer
    \<Rightarrow> (stepbracket option \<times> 'lc optimizer) option" where
  "bracketstepsize ops kind self =
     do {
       e0 \<leftarrow> totalenergy ops self;
       (e1, self1) \<leftarrow> energywithstepsize ops kind (stepsize self) self;
       (e2, self2) \<leftarrow> energywithstepsize ops kind (2 * stepsize self) self1;
       bracket_loop (energywithstepsize ops kind)
         \<lparr> s0 = 0, s1 = stepsize self, s2 = 2 * stepsize self,
           bracket0 = e0, bracket1 = e1, bracket2 = e2 \<rparr> 0 self2
     }"

text \<open>\<open>hasconverged()\<close>; the history is in the order of the appends.\<close>

definition hasconverged :: "'lc optimizer \<Rightarrow> bool" where
  "hasconverged self =
     (if length (energy self) > 1 then
        (let e1 = last (energy self); e2 = last (butlast (energy self)); de = \<bar>e1 - e2\<bar>
         in \<bar>e1\<bar> < etol self \<or> de / \<bar>e1\<bar> < etol self)
      else False)"

text \<open>\<open>dolinesearch()\<close>: \<open>false\<close> when there is no bracket; otherwise the step size
  becomes the minimiser that \<open>brent\<close> finds between the step sizes of the bracket.\<close>

definition dolinesearch :: "'lc problem_ops \<Rightarrow> optimizer_kind \<Rightarrow> 'lc optimizer
    \<Rightarrow> (bool \<times> 'lc optimizer) option" where
  "dolinesearch ops kind self =
     do {
       (brack, self1) \<leftarrow> bracketstepsize ops kind self;
       (case brack of
          None \<Rightarrow> Some (False, self1)
        | Some br \<Rightarrow>
            do {
              (xfx, self2) \<leftarrow> brent (s0 br, s1 br, s2 br) (energywithstepsize ops kind)
                                 (linmintol self1) (linminmax self1) self1;
              Some (True, self2\<lparr> stepsize := fst xfx \<rparr>)
            })
     }"

text \<open>The loop \<open>for (i in 0...n)\<close> of \<open>linesearch\<close>, with its two \<open>break\<close>s.\<close>

fun linesearch_loop :: "'lc problem_ops \<Rightarrow> optimizer_kind \<Rightarrow> nat \<Rightarrow> 'lc optimizer
    \<Rightarrow> 'lc optimizer option" where
  "linesearch_loop ops kind 0 self = Some self"
| "linesearch_loop ops kind (Suc n) self =
     do {
       (f, lc) \<leftarrow> po_totalforcewithconstraints ops (target_data self);
       (ok, self1) \<leftarrow> dolinesearch ops kind (self\<lparr> force := Some f, lcactive := Some lc \<rparr>);
       if \<not> ok then Some self1
       else do {
         let self2 = (if stepsize self1 > steplimit self1
                      then self1\<lparr> stepsize := steplimit self1 \<rparr> else self1);
         self3 \<leftarrow> step ops (stepsize self2) self2;
         e \<leftarrow> totalenergy ops self3;
         let self4 = self3\<lparr> energy := energy self3 @ [e] \<rparr>;
         if hasconverged self4 then Some self4 else linesearch_loop ops kind n self4
       }
     }"

text \<open>\<open>linesearch(n)\<close> returns \<open>self.energy\<close>.\<close>

definition linesearch :: "'lc problem_ops \<Rightarrow> optimizer_kind \<Rightarrow> nat \<Rightarrow> 'lc optimizer
    \<Rightarrow> (real list \<times> 'lc optimizer) option" where
  "linesearch ops kind n self =
     do {
       self0 \<leftarrow> (if length (energy self) = 0
                 then do { e \<leftarrow> totalenergy ops self; Some (self\<lparr> energy := energy self @ [e] \<rparr>) }
                 else Some self);
       self' \<leftarrow> linesearch_loop ops kind n self0;
       Some (energy self', self')
     }"

section \<open>Mesh refinement: the refinement map, selections and fields (meshtools)\<close>

text \<open>
  \<open>MeshRefiner.refinemap\<close> is a list with one dictionary per grade. A dictionary value
  is either an integer, the id of the single element an element was copied or cut from,
  or a list of ids. Dictionaries are association lists with \<open>AList.update\<close> as
  assignment and \<open>map_of\<close> as lookup; iterating a dictionary visits its keys.
\<close>

datatype refentry = Single nat | Parents "nat list"

type_synonym refdict = "(nat \<times> refentry) list"

type_synonym point = "real list"

text \<open>The part of the refiner's working state that \<open>split\<close> touches: the vertex list of
  the MeshBuilder, the k-d tree and the grade 0 dictionary.

  Modelled from the spec: the k-d tree class (module kdtree, documented in the manual only)
  is the list of its nodes, a location and the \<open>id\<close> property that \<open>split\<close> sets on the
  nodes it inserts; \<open>ismember\<close> returns the first node whose location coincides with the
  point, the coincidence test, with its tolerance, being a parameter.\<close>

record refiner_state =
  mb_vertices :: "point list"
  tree :: "(point \<times> nat option) list"
  dict :: refdict

text \<open>\<open>MeshBuilder.addvertex\<close>: append, return the new index.\<close>

definition addvertex :: "point \<Rightarrow> refiner_state \<Rightarrow> nat \<times> refiner_state" where
  "addvertex v st =
     (length (mb_vertices st), st\<lparr> mb_vertices := mb_vertices st @ [v] \<rparr>)"

definition ismember :: "(point \<Rightarrow> point \<Rightarrow> bool) \<Rightarrow> (point \<times> nat option) list \<Rightarrow> point
    \<Rightarrow> (point \<times> nat option) option" where
  "ismember coincide t x = find (\<lambda>node. coincide (fst node) x) t"

text \<open>\<open>vert.column(k)\<close> raises an error outside the matrix.\<close>

definition column :: "point list \<Rightarrow> nat \<Rightarrow> point option" where
  "column vert k = (if k < length vert then Some (vert ! k) else None)"

definition midpoint :: "point \<Rightarrow> point \<Rightarrow> point" where
  "midpoint x y = map (\<lambda>(a, b). (a + b) / 2) (zip x y)"

text \<open>The body of the double loop of \<open>split\<close> for the vertex pair \<open>(el[i], el[j])\<close>: a
  midpoint that is not in the tree yet becomes a new vertex, and the dictionary maps the new
  id to the list of the two end points.\<close>

definition split_pair :: "(point \<Rightarrow> point \<Rightarrow> bool) \<Rightarrow> point list \<Rightarrow> nat \<times> nat
    \<Rightarrow> refiner_state option \<Rightarrow> refiner_state option" where
  "split_pair coincide vert ij sto =
     (case sto of None \<Rightarrow> None
      | Some st \<Rightarrow>
         (case (column vert (fst ij), column vert (snd ij)) of
            (Some x, Some y) \<Rightarrow>
              (if ismember coincide (tree st) (midpoint x y) = None then
                 (let (id, st1) = addvertex (midpoint x y) st
                  in Some (st1\<lparr> tree := tree st1 @ [(midpoint x y, Some id)],
                                dict := AList.update id (Parents [fst ij, snd ij]) (dict st1) \<rparr>))
               else Some st)
          | _ \<Rightarrow> None))"

text \<open>\<open>for (i in 0...nv) for (j in i+1...nv)\<close>.\<close>

definition vertex_pairs :: "nat list \<Rightarrow> (nat \<times> nat) list" where
  "vertex_pairs el =
     concat (map (\<lambda>i. map (\<lambda>j. (el ! i, el ! j)) [i + 1 ..< length el]) [0 ..< length el])"

definition split :: "(point \<Rightarrow> point \<Rightarrow> bool) \<Rightarrow> nat list \<Rightarrow> point list \<Rightarrow> refiner_state
    \<Rightarrow> refiner_state option" where
  "split coincide el vert st = fold (split_pair coincide vert) (vertex_pairs el) (Some st)"

text \<open>Modelled from the spec: the Selection class (selection.c is not among the sources;
  section 3.3 of the specification: per grade, a mapping from element id to a flag with a
  membership test). A selection gives, per grade, the ids it holds; \<open>sel[g, i]\<close> is
  membership, \<open>sel.count(g)\<close> the number of ids, \<open>result[g, id] = true\<close> an insertion, and
  \<open>Selection(mesh)\<close> is empty.\<close>

type_synonym selection = "nat \<Rightarrow> nat list"

definition isselected :: "selection \<Rightarrow> nat \<Rightarrow> nat \<Rightarrow> bool" where
  "isselected sel g i = (i \<in> set (sel g))"

definition selcount :: "selection \<Rightarrow> nat \<Rightarrow> nat" where
  "selcount sel g = length (sel g)"

text \<open>\<open>if (isint(dict[id]) && sel[g, dict[id]]) result[g, id]=true\<close>\<close>

definition refineselection_entry :: "refdict \<Rightarrow> selection \<Rightarrow> nat \<Rightarrow> nat \<Rightarrow> nat list \<Rightarrow> nat list" where
  "refineselection_entry d sel g i res =
     (case map_of d i of
        Some (Single p) \<Rightarrow> if isselected sel g p then List.insert i res else res
      | _ \<Rightarrow> res)"

definition refineselection_grade :: "refdict \<Rightarrow> selection \<Rightarrow> nat \<Rightarrow> nat list" where
  "refineselection_grade d sel g =
     (if selcount sel g = 0 then []
      else fold (refineselection_entry d sel g) (map fst d) [])"

text \<open>\<open>refineselection(sel)\<close>; \<open>maxgrade\<close> is \<open>self.new.maxgrade()\<close>. The result is \<open>nil\<close>
  without a refinement map, and indexing the map beyond its length is an error.\<close>

definition refineselection :: "refdict list option \<Rightarrow> nat \<Rightarrow> selection \<Rightarrow> selection option" where
  "refineselection refinemap maxgrade sel =
     (case refinemap of
        None \<Rightarrow> None
      | Some rm \<Rightarrow>
          if maxgrade < length rm
          then Some (\<lambda>g. if g \<le> maxgrade then refineselection_grade (rm ! g) sel g else [])
          else None)"

















section \<open>Dense matrices (matrix.c)\<close>

text \<open>
  An \<open>objectmatrix\<close> stores its entries column by column,
  \<open>elements[col*nrows+row]\<close>. Every access below is checked against \<open>nrows\<close> and
  \<open>ncols\<close>, so two positions in range are distinct cells exactly when they differ in row
  or column; \<open>elements m col row\<close> stands for that cell. A pointer to a column is the
  function from the row to the entry. The update functions return the matrix; they leave
  it unchanged where the C function returns \<open>false\<close>.
\<close>

record 'a objectmatrix =
  nrows :: nat
  ncols :: nat
  elements :: "nat \<Rightarrow> nat \<Rightarrow> 'a"

text \<open>\<open>object_newmatrix(nrows, ncols, true)\<close>, the entries set to zero.\<close>

definition object_newmatrix :: "'a \<Rightarrow> nat \<Rightarrow> nat \<Rightarrow> 'a objectmatrix" where
  "object_newmatrix z r c = \<lparr> nrows = r, ncols = c, elements = (\<lambda>col row. z) \<rparr>"

definition matrix_setelement :: "'a objectmatrix \<Rightarrow> nat \<Rightarrow> nat \<Rightarrow> 'a \<Rightarrow> 'a objectmatrix" where
  "matrix_setelement m row col v =
     (if col < ncols m \<and> row < nrows m
      then m\<lparr> elements := (elements m)(col := (elements m col)(row := v)) \<rparr>
      else m)"

definition matrix_getelement :: "'a objectmatrix \<Rightarrow> nat \<Rightarrow> nat \<Rightarrow> 'a option" where
  "matrix_getelement m row col =
     (if col < ncols m \<and> row < nrows m then Some (elements m col row) else None)"

definition matrix_getcolumn :: "'a objectmatrix \<Rightarrow> nat \<Rightarrow> (nat \<Rightarrow> 'a) option" where
  "matrix_getcolumn m col = (if col < ncols m then Some (elements m col) else None)"

text \<open>\<open>matrix_setcolumn\<close> copies \<open>nrows\<close> entries from \<open>v\<close>.\<close>

definition matrix_setcolumn :: "'a objectmatrix \<Rightarrow> nat \<Rightarrow> (nat \<Rightarrow> 'a) \<Rightarrow> 'a objectmatrix" where
  "matrix_setcolumn m col v =
     (if col < ncols m
      then m\<lparr> elements := (elements m)
                 (col := (\<lambda>row. if row < nrows m then v row else elements m col row)) \<rparr>
      else m)"

section \<open>Sparse matrices (sparse.c)\<close>

text \<open>The value stored under a key of the dictionary of keys.\<close>

datatype val = Float real | Integer int | Nil

text \<open>
  A \<open>sparsedok\<close> has its dimensions, the hash table \<open>dict\<close> from keys (row, column) to
  values, and the linked list \<open>keys\<close> of the key objects, the most recent first. The
  hash table is the list of its occupied slots in slot order, which is the order in which
  \<open>sparseccs_doktoccs\<close> visits them; where a new key lands is decided by the hash
  function of dictionary.c, which is not among the sources: here it lands at the end.
\<close>

record sparsedok =
  dok_nrows :: nat
  dok_ncols :: nat
  dict_of :: "((nat \<times> nat) \<times> val) list"
  keys_of :: "(nat \<times> nat) list"



definition sparsedok_get :: "sparsedok \<Rightarrow> nat \<Rightarrow> nat \<Rightarrow> val option" where
  "sparsedok_get dok i j = map_of (dict_of dok) (i, j)"

text \<open>
  A \<open>sparseccs\<close>: \<open>cptr\<close> has \<open>ncols+1\<close> entries, \<open>rix\<close> the row indices, a C \<open>int\<close>
  array in which \<open>sparseccs_doktoccs\<close> uses -1 as the mark of a free place. A structure
  whose \<open>cptr\<close> is \<open>NULL\<close> (after \<open>sparseccs_init\<close> or \<open>sparseccs_clear\<close>) is \<open>None\<close>
  in an \<open>objectsparse\<close>.
\<close>

record sparseccs =
  nentries :: nat
  ccs_nrows :: nat
  ccs_ncols :: nat
  cptr :: "nat list"
  rix :: "int list"
  ccs_values :: "real list option"

record objectsparse =
  sp_dok :: sparsedok
  sp_ccs :: "sparseccs option"

text \<open>The fields of the \<open>ccs\<close> member as the functional code reads them: zero columns
  when the structure is cleared.\<close>

definition ccs_of :: "objectsparse \<Rightarrow> sparseccs" where
  "ccs_of s = (case sp_ccs s of
                 None \<Rightarrow> \<lparr> nentries = 0, ccs_nrows = 0, ccs_ncols = 0, cptr = [], rix = [],
                            ccs_values = None \<rparr>
               | Some c \<Rightarrow> c)"

text \<open>\<open>sparseccs_getrowindices\<close>: the row indices of a column, \<open>false\<close> beyond the last
  column.\<close>

definition sparseccs_getrowindices :: "sparseccs \<Rightarrow> nat \<Rightarrow> int list option" where
  "sparseccs_getrowindices ccs col =
     (if col \<ge> ccs_ncols ccs then None
      else Some (take (cptr ccs ! (col + 1) - cptr ccs ! col) (drop (cptr ccs ! col) (rix ccs))))"

text \<open>
  \<open>sparseccs_doktoccs\<close>, phase by phase. The keys are visited in the order of the slots of
  the hash table.

  Count the entries of each column: \<open>out->cptr[col]++\<close> for each key.
\<close>

definition count_columns :: "(nat \<times> nat) list \<Rightarrow> nat list \<Rightarrow> nat list" where
  "count_columns ks cp = fold (\<lambda>k c. c[snd k := c ! snd k + 1]) ks cp"

text \<open>Construct the column pointers: \<open>p=ptr; ptr+=out->cptr[i]; out->cptr[i]=p\<close>.\<close>

fun column_pointers :: "nat \<Rightarrow> nat list \<Rightarrow> nat list" where
  "column_pointers ptr [] = []"
| "column_pointers ptr (c # cs) = ptr # column_pointers (ptr + c) cs"

text \<open>\<open>while (out->rix[k]!=-1) k++\<close>; running off the array is \<open>None\<close>.\<close>

function find_free :: "int list \<Rightarrow> nat \<Rightarrow> nat option" where
  "find_free rx k =
     (if k < length rx then (if rx ! k \<noteq> - 1 then find_free rx (k + 1) else Some k)
      else None)"
  by pat_completeness auto
termination
  by (relation "measure (\<lambda>(rx, k). length rx - k)") auto

declare find_free.simps [simp del]

text \<open>Copy the row of a key into the first free place of its column.\<close>

definition place_key :: "nat list \<Rightarrow> nat \<times> nat \<Rightarrow> int list option \<Rightarrow> int list option" where
  "place_key cp k rxo =
     (case rxo of
        None \<Rightarrow> None
      | Some rx \<Rightarrow> (case find_free rx (cp ! snd k) of
                     None \<Rightarrow> None
                   | Some i \<Rightarrow> Some (rx[i := int (fst k)])))"

text \<open>Sort column \<open>i\<close>: \<open>qsort\<close> on the \<open>len\<close> entries from \<open>cptr[i]\<close>, if there is more
  than one.\<close>

definition sort_column :: "nat list \<Rightarrow> nat \<Rightarrow> int list \<Rightarrow> int list" where
  "sort_column cp i rx =
     (let len = cp ! (i + 1) - cp ! i
      in if len > 1
         then take (cp ! i) rx @ sort (take len (drop (cp ! i) rx)) @ drop (cp ! i + len) rx
         else rx)"

text \<open>Copy over the values: zero, then for each column and each of its entries the value
  that the dictionary holds for the row and the column, if it is a number.\<close>

definition copy_value :: "sparsedok \<Rightarrow> int list \<Rightarrow> nat \<Rightarrow> nat \<Rightarrow> real list \<Rightarrow> real list" where
  "copy_value dok rx j idx vals =
     (case sparsedok_get dok (nat (rx ! idx)) j of
        Some (Float x) \<Rightarrow> vals[idx := x]
      | Some (Integer n) \<Rightarrow> vals[idx := real_of_int n]
      | _ \<Rightarrow> vals)"

definition copy_values :: "sparsedok \<Rightarrow> nat list \<Rightarrow> int list \<Rightarrow> real list" where
  "copy_values dok cp rx =
     fold (\<lambda>j vals. fold (\<lambda>i. copy_value dok rx j (cp ! j + i)) [0 ..< cp ! (j + 1) - cp ! j] vals)
       [0 ..< dok_ncols dok] (replicate (length (dict_of dok)) 0)"

text \<open>
  The conversion. \<open>sparseccs_resize\<close> on the initialised structure allocates \<open>cptr\<close> only
  for a positive number of columns and fails otherwise; allocation itself is taken to
  succeed, also that of an array of no entries.
\<close>

definition sparseccs_doktoccs :: "sparsedok \<Rightarrow> bool \<Rightarrow> sparseccs option" where
  "sparseccs_doktoccs dok copyvals =
     (if dok_ncols dok = 0 then None
      else
        (let ks = map fst (dict_of dok);
             cp = column_pointers 0 (count_columns ks (replicate (dok_ncols dok + 1) 0))
         in (case fold (place_key cp) ks (Some (replicate (length (dict_of dok)) (- 1))) of
               None \<Rightarrow> None
             | Some rx0 \<Rightarrow>
                 (let rx = fold (sort_column cp) [0 ..< dok_ncols dok] rx0
                  in Some \<lparr> nentries = length (dict_of dok), ccs_nrows = dok_nrows dok,
                            ccs_ncols = dok_ncols dok, cptr = cp, rix = rx,
                            ccs_values = (if copyvals then Some (copy_values dok cp rx)
                                          else None) \<rparr>))))"

text \<open>\<open>sparse_checkformat(sparse, SPARSE_CCS, true, copyvals)\<close>: the CCS form is derived
  when it is not there.\<close>

definition sparse_checkformat_ccs :: "objectsparse \<Rightarrow> bool \<Rightarrow> bool \<times> objectsparse" where
  "sparse_checkformat_ccs s copyvals =
     (case sp_ccs s of
        Some c \<Rightarrow> (True, s)
      | None \<Rightarrow> (case sparseccs_doktoccs (sp_dok s) copyvals of
                   Some c \<Rightarrow> (True, s\<lparr> sp_ccs := Some c \<rparr>)
                 | None \<Rightarrow> (False, s)))"





text \<open>The number of keys in column \<open>c\<close>: what the counting loop leaves in \<open>cptr[c]\<close>.\<close>

definition cnt :: "(nat \<times> nat) list \<Rightarrow> nat \<Rightarrow> nat" where
  "cnt ks c = length (filter (\<lambda>k. snd k = c) ks)"







section \<open>The functional evaluator (functional.c)\<close>

datatype symmetrybhvr = SYMMETRY_NONE | SYMMETRY_ADD

text \<open>
  Of an \<open>objectmesh\<close> the evaluator reads the dimension, the vertex matrix (one column
  per vertex) and the connectivity elements: \<open>mesh_conn m r c\<close> is
  \<open>mesh_getconnectivityelement(m, r, c)\<close>, \<open>None\<close> for \<open>NULL\<close>.
\<close>

record objectmesh =
  mesh_dim :: nat
  mesh_vert :: "real objectmatrix"
  mesh_conn :: "nat \<Rightarrow> nat \<Rightarrow> objectsparse option"

text \<open>
  An integrand function gets the mesh, the element id and the vertex ids
  \<open>vid[0..nv-1]\<close> and gives the value, or \<open>None\<close> where the C function returns \<open>false\<close>;
  a gradient function gets the force matrix in addition and gives the updated matrix.
  The \<open>ref\<close> pointer is part of the function.
\<close>

type_synonym 'a functional_integrand = "objectmesh \<Rightarrow> nat \<Rightarrow> nat list \<Rightarrow> 'a option"

type_synonym functional_gradient =
  "objectmesh \<Rightarrow> nat \<Rightarrow> nat list \<Rightarrow> real objectmatrix \<Rightarrow> real objectmatrix option"

record 'a functional_mapinfo =
  mi_mesh :: objectmesh
  mi_sel :: "selection option"
  mi_g :: nat
  mi_integrand :: "'a functional_integrand"
  mi_grad :: functional_gradient
  mi_sym :: symmetrybhvr

text \<open>\<open>functional_countelements\<close>: the number of elements and, above grade 0, the
  connectivity element that lists their vertices; an error when the mesh has none.\<close>

definition functional_countelements :: "objectmesh \<Rightarrow> nat \<Rightarrow> (nat \<times> objectsparse option) option" where
  "functional_countelements mesh g =
     (if g = 0 then Some (ncols (mesh_vert mesh), None)
      else (case mesh_conn mesh 0 g of
              Some s \<Rightarrow> Some (ccs_ncols (ccs_of s), Some s)
            | None \<Rightarrow> None))"

text \<open>\<open>functional_symmetryimagelist(mesh, g, true, ids)\<close>: the column indices of the keys
  of C(g,g), sorted.\<close>

definition functional_symmetryimagelist :: "objectmesh \<Rightarrow> nat \<Rightarrow> nat list" where
  "functional_symmetryimagelist mesh g =
     (case mesh_conn mesh g g of
        None \<Rightarrow> []
      | Some c \<Rightarrow> sort (map snd (keys_of (sp_dok c))))"

text \<open>The body of the loop of \<open>functional_symmetrysumforces\<close> for the key (i, j):
  \<open>fsum\<close> has \<open>mesh->dim\<close> entries, and both columns are overwritten with it.\<close>

definition symmetrysum_pair :: "nat \<Rightarrow> nat \<times> nat \<Rightarrow> real objectmatrix \<Rightarrow> real objectmatrix" where
  "symmetrysum_pair d ij frc =
     (case (matrix_getcolumn frc (fst ij), matrix_getcolumn frc (snd ij)) of
        (Some fi, Some fj) \<Rightarrow>
          (let fsum = (\<lambda>k. if k < d then fi k + fj k else undefined)
           in matrix_setcolumn (matrix_setcolumn frc (fst ij) fsum) (snd ij) fsum)
      | _ \<Rightarrow> frc)"

definition functional_symmetrysumforces :: "objectmesh \<Rightarrow> real objectmatrix \<Rightarrow> real objectmatrix" where
  "functional_symmetrysumforces mesh frc =
     (case mesh_conn mesh 0 0 of
        None \<Rightarrow> frc
      | Some s \<Rightarrow> fold (symmetrysum_pair (mesh_dim mesh)) (keys_of (sp_dok s)) frc)"

text \<open>
  The vertex ids of element \<open>i\<close> inside the element loops. At grade 0 (\<open>s\<close> is \<open>NULL\<close>)
  the element is its own vertex. Otherwise \<open>sparseccs_getrowindices\<close> sets \<open>nv\<close> and
  \<open>vid\<close>; when it fails they keep the values of the previous pass, \<open>prev\<close>, which is
  \<open>None\<close> while \<open>vid\<close> is still \<open>NULL\<close>.
\<close>

definition element_vids :: "objectsparse option \<Rightarrow> nat \<Rightarrow> nat list option \<Rightarrow> nat list option" where
  "element_vids s i prev =
     (case s of
        None \<Rightarrow> Some [i]
      | Some sp \<Rightarrow> (case sparseccs_getrowindices (ccs_of sp) i of
                     Some r \<Rightarrow> Some (map nat r)
                   | None \<Rightarrow> prev))"

text \<open>\<open>if (vid && nv>0)\<close>\<close>

definition has_vertices :: "nat list option \<Rightarrow> bool" where
  "has_vertices vid = (case vid of None \<Rightarrow> False | Some l \<Rightarrow> l \<noteq> [])"

text \<open>The elements a map function loops over: the keys of the selection at the grade, in
  the order of the slots of the selection's table, or all ids below \<open>n\<close>.\<close>

definition loop_elements :: "selection option \<Rightarrow> nat \<Rightarrow> nat \<Rightarrow> nat list" where
  "loop_elements sel g n = (case sel of Some s \<Rightarrow> s g | None \<Rightarrow> [0 ..< n])"

text \<open>The floating point operations the summation uses.\<close>

record 'a flops =
  fl_zero :: 'a
  fl_add :: "'a \<Rightarrow> 'a \<Rightarrow> 'a"
  fl_sub :: "'a \<Rightarrow> 'a \<Rightarrow> 'a"

text \<open>The element loop of \<open>functional_sumintegrand\<close>; the state is \<open>sindx\<close>, the current
  \<open>vid\<close>, \<open>sum\<close> (here \<open>sm\<close>) and \<open>c\<close>.\<close>

fun sumintegrand_loop :: "'a flops \<Rightarrow> 'a functional_integrand \<Rightarrow> objectmesh \<Rightarrow> objectsparse option
    \<Rightarrow> nat list \<Rightarrow> nat list \<Rightarrow> nat \<Rightarrow> nat list option \<Rightarrow> 'a \<Rightarrow> 'a \<Rightarrow> 'a option" where
  "sumintegrand_loop ops integrand mesh s imageids [] sindx vid sm c = Some sm"
| "sumintegrand_loop ops integrand mesh s imageids (i # els) sindx vid sm c =
     (if sindx < length imageids \<and> imageids ! sindx = i
      then sumintegrand_loop ops integrand mesh s imageids els (sindx + 1) vid sm c
      else if has_vertices (element_vids s i vid)
      then (case integrand mesh i (the (element_vids s i vid)) of
              Some result \<Rightarrow>
                (let y = fl_sub ops result c;
                     t = fl_add ops sm y
                 in sumintegrand_loop ops integrand mesh s imageids els sindx
                      (element_vids s i vid) t (fl_sub ops (fl_sub ops t sm) y))
            | None \<Rightarrow> None)
      else sumintegrand_loop ops integrand mesh s imageids els sindx (element_vids s i vid) sm c)"

text \<open>\<open>functional_sumintegrand\<close>: the success flag and the value written to \<open>out\<close>, if
  any.\<close>

definition functional_sumintegrand :: "'a flops \<Rightarrow> 'a functional_mapinfo \<Rightarrow> bool \<times> 'a option" where
  "functional_sumintegrand ops info =
     (case functional_countelements (mi_mesh info) (mi_g info) of
        None \<Rightarrow> (False, None)
      | Some (n, s) \<Rightarrow>
          if n > 0 then
            (case sumintegrand_loop ops (mi_integrand info) (mi_mesh info) s
                    (functional_symmetryimagelist (mi_mesh info) (mi_g info))
                    (loop_elements (mi_sel info) (mi_g info) n) 0
                    (if mi_g info = 0 then Some [] else None) (fl_zero ops) (fl_zero ops) of
               Some sm \<Rightarrow> (True, Some sm)
             | None \<Rightarrow> (False, None))
          else (True, None))"

text \<open>The element loop of \<open>functional_mapintegrand\<close>; the state is \<open>sindx\<close>, the current
  \<open>vid\<close> and the matrix \<open>new\<close>.\<close>

fun mapintegrand_loop :: "'a functional_integrand \<Rightarrow> objectmesh \<Rightarrow> objectsparse option
    \<Rightarrow> nat list \<Rightarrow> nat list \<Rightarrow> nat \<Rightarrow> nat list option \<Rightarrow> 'a objectmatrix \<Rightarrow> 'a objectmatrix option" where
  "mapintegrand_loop integrand mesh s imageids [] sindx vid new = Some new"
| "mapintegrand_loop integrand mesh s imageids (i # els) sindx vid new =
     (if sindx < length imageids \<and> imageids ! sindx = i
      then mapintegrand_loop integrand mesh s imageids els (sindx + 1) vid new
      else if has_vertices (element_vids s i vid)
      then (case integrand mesh i (the (element_vids s i vid)) of
              Some result \<Rightarrow>
                mapintegrand_loop integrand mesh s imageids els sindx
                  (element_vids s i vid) (matrix_setelement new 0 i result)
            | None \<Rightarrow> None)
      else mapintegrand_loop integrand mesh s imageids els sindx (element_vids s i vid) new)"

definition functional_mapintegrand :: "'a \<Rightarrow> 'a functional_mapinfo \<Rightarrow> bool \<times> 'a objectmatrix option" where
  "functional_mapintegrand zero info =
     (case functional_countelements (mi_mesh info) (mi_g info) of
        None \<Rightarrow> (False, None)
      | Some (n, s) \<Rightarrow>
          if n > 0 then
            (case mapintegrand_loop (mi_integrand info) (mi_mesh info) s
                    (functional_symmetryimagelist (mi_mesh info) (mi_g info))
                    (loop_elements (mi_sel info) (mi_g info) n) 0
                    (if mi_g info = 0 then Some [] else None) (object_newmatrix zero 1 n) of
               Some new \<Rightarrow> (True, Some new)
             | None \<Rightarrow> (False, None))
          else (False, None))"

text \<open>The element loop of \<open>functional_mapgradient\<close>, which skips no element.\<close>

fun mapgradient_loop :: "functional_gradient \<Rightarrow> objectmesh \<Rightarrow> objectsparse option
    \<Rightarrow> nat list \<Rightarrow> nat list option \<Rightarrow> real objectmatrix \<Rightarrow> real objectmatrix option" where
  "mapgradient_loop grad mesh s [] vid frc = Some frc"
| "mapgradient_loop grad mesh s (i # els) vid frc =
     (if has_vertices (element_vids s i vid)
      then (case grad mesh i (the (element_vids s i vid)) frc of
              Some frc' \<Rightarrow> mapgradient_loop grad mesh s els (element_vids s i vid) frc'
            | None \<Rightarrow> None)
      else mapgradient_loop grad mesh s els (element_vids s i vid) frc)"

text \<open>The forces accumulated by the element loop, before the symmetry step.\<close>

definition mapgradient_accumulate :: "'a functional_mapinfo \<Rightarrow> nat \<Rightarrow> objectsparse option
    \<Rightarrow> real objectmatrix option" where
  "mapgradient_accumulate info n s =
     mapgradient_loop (mi_grad info) (mi_mesh info) s
       (loop_elements (mi_sel info) (mi_g info) n)
       (if mi_g info = 0 then Some [] else None)
       (object_newmatrix 0 (nrows (mesh_vert (mi_mesh info))) (ncols (mesh_vert (mi_mesh info))))"

definition functional_mapgradient :: "'a functional_mapinfo \<Rightarrow> bool \<times> real objectmatrix option" where
  "functional_mapgradient info =
     (case functional_countelements (mi_mesh info) (mi_g info) of
        None \<Rightarrow> (False, None)
      | Some (n, s) \<Rightarrow>
          if n > 0 then
            (case mapgradient_accumulate info n s of
               Some frc \<Rightarrow>
                 (True, Some (if mi_sym info = SYMMETRY_ADD
                              then functional_symmetrysumforces (mi_mesh info) frc
                              else frc))
             | None \<Rightarrow> (False, None))
          else (False, None))"

text \<open>
  Numerical gradients. One pass of the inner loop of \<open>functional_numericalgradient\<close> (and
  the body of the loop of \<open>functional_numericalremotegradient\<close>) for vertex \<open>tv\<close> and
  coordinate \<open>k\<close>. The state is the mesh, the force matrix and the locals \<open>f0\<close> and
  \<open>x0\<close>, which keep their value when \<open>matrix_getelement\<close> fails. The result carries the
  flag that the C function would go on with: \<open>False\<close> is the \<open>return false\<close> after a failed
  integrand, with the state at that moment.
\<close>

type_synonym numgrad_state = "objectmesh \<times> real objectmatrix \<times> real \<times> real"

definition numgrad_eps :: real where
  "numgrad_eps = 1 / 10 ^ 10"

definition set_vertex_coordinate :: "objectmesh \<Rightarrow> nat \<Rightarrow> nat \<Rightarrow> real \<Rightarrow> objectmesh" where
  "set_vertex_coordinate mesh k tv x =
     mesh\<lparr> mesh_vert := matrix_setelement (mesh_vert mesh) k tv x \<rparr>"

definition numgrad_coordinate :: "real functional_integrand \<Rightarrow> nat \<Rightarrow> nat list \<Rightarrow> nat \<times> nat
    \<Rightarrow> numgrad_state \<Rightarrow> bool \<times> numgrad_state" where
  "numgrad_coordinate integrand i vid tvk st =
     (case st of (mesh, frc, f0_old, x0_old) \<Rightarrow>
      (let tv = fst tvk; k = snd tvk; eps = numgrad_eps;
           f0 = (case matrix_getelement frc k tv of Some v \<Rightarrow> v | None \<Rightarrow> f0_old);
           x0 = (case matrix_getelement (mesh_vert mesh) k tv of Some v \<Rightarrow> v | None \<Rightarrow> x0_old);
           mesh1 = set_vertex_coordinate mesh k tv (x0 + eps)
       in (case integrand mesh1 i vid of
             None \<Rightarrow> (False, (mesh1, frc, f0, x0))
           | Some fp \<Rightarrow>
               (let mesh2 = set_vertex_coordinate mesh1 k tv (x0 - eps)
                in (case integrand mesh2 i vid of
                      None \<Rightarrow> (False, (mesh2, frc, f0, x0))
                    | Some fm \<Rightarrow>
                        (let mesh3 = set_vertex_coordinate mesh2 k tv x0
                         in (True, (mesh3,
                                    matrix_setelement frc k tv (f0 + (fp - fm) / (2 * eps)),
                                    f0, x0))))))))"

text \<open>Running the passes in order, stopping at the first \<open>return false\<close>.\<close>

fun numgrad_loop :: "real functional_integrand \<Rightarrow> nat \<Rightarrow> nat list \<Rightarrow> (nat \<times> nat) list
    \<Rightarrow> numgrad_state \<Rightarrow> bool \<times> numgrad_state" where
  "numgrad_loop integrand i vid [] st = (True, st)"
| "numgrad_loop integrand i vid (tvk # rest) st =
     (case numgrad_coordinate integrand i vid tvk st of
        (True, st') \<Rightarrow> numgrad_loop integrand i vid rest st'
      | (False, st') \<Rightarrow> (False, st'))"

text \<open>\<open>functional_numericalgradient\<close>: for each vertex of the element, for each
  coordinate. \<open>f0\<close> and \<open>x0\<close> are the uninitialised locals.\<close>

definition functional_numericalgradient :: "objectmesh \<Rightarrow> nat \<Rightarrow> nat list
    \<Rightarrow> real functional_integrand \<Rightarrow> real objectmatrix \<Rightarrow> real \<Rightarrow> real
    \<Rightarrow> bool \<times> numgrad_state" where
  "functional_numericalgradient mesh i vid integrand frc f0 x0 =
     numgrad_loop integrand i vid
       (concat (map (\<lambda>tv. map (\<lambda>k. (tv, k)) [0 ..< mesh_dim mesh]) vid))
       (mesh, frc, f0, x0)"

text \<open>\<open>functional_numericalremotegradient\<close>: for each coordinate of the vertex
  \<open>remoteid\<close>, with the integrand of element \<open>i\<close>.\<close>

definition functional_numericalremotegradient :: "objectmesh \<Rightarrow> real functional_integrand
    \<Rightarrow> nat \<Rightarrow> nat \<Rightarrow> nat list \<Rightarrow> real objectmatrix \<Rightarrow> real \<Rightarrow> real
    \<Rightarrow> bool \<times> numgrad_state" where
  "functional_numericalremotegradient mesh integrand remoteid i vid frc f0 x0 =
     numgrad_loop integrand i vid (map (\<lambda>k. (remoteid, k)) [0 ..< mesh_dim mesh])
       (mesh, frc, f0, x0)"

section \<open>Auxiliary notions for the statements\<close>

text \<open>The vertex ids that occur in a list of keys of C(0,0).\<close>

definition pair_indices :: "(nat \<times> nat) list \<Rightarrow> nat set" where
  "pair_indices ps = fst ` set ps \<union> snd ` set ps"

text \<open>The state that \<open>brent\<close> reaches after two passes on the bracket (-1, 0, 1) with the
  function u * u and tol = 0.001 (the results show that it does).\<close>

definition brent_after_two_passes :: brent_state where
  "brent_after_two_passes =
     \<lparr> br_a = - (3819660 / 10 ^ 7), br_b = 3819660 / 10 ^ 7, br_d = 3819660 / 10 ^ 7,
       br_e = 1, br_v = - (3819660 / 10 ^ 7), br_w = 3819660 / 10 ^ 7, br_x = 0,
       br_fv = (3819660 / 10 ^ 7)\<^sup>2, br_fw = (3819660 / 10 ^ 7)\<^sup>2, br_fx = 0 \<rparr>"

text \<open>Compensated (Kahan) summation of a list of values with the given operations: one
  step takes a value and the pair of the running sum and the compensation.\<close>

definition kahan_step :: "'a flops \<Rightarrow> 'a \<Rightarrow> 'a \<times> 'a \<Rightarrow> 'a \<times> 'a" where
  "kahan_step ops x sc =
     (let y = fl_sub ops x (snd sc); t = fl_add ops (fst sc) y
      in (t, fl_sub ops (fl_sub ops t (fst sc)) y))"

definition kahan_sum :: "'a flops \<Rightarrow> 'a list \<Rightarrow> 'a" where
  "kahan_sum ops xs = fst (fold (kahan_step ops) xs (fl_zero ops, fl_zero ops))"

text \<open>The elements on which an element loop with image skipping calls the integrand, with
  the vertex ids it passes, provided no call fails.\<close>

fun visited :: "objectsparse option \<Rightarrow> nat list \<Rightarrow> nat list \<Rightarrow> nat \<Rightarrow> nat list option
    \<Rightarrow> (nat \<times> nat list) list" where
  "visited s imageids [] sindx vid = []"
| "visited s imageids (i # els) sindx vid =
     (if sindx < length imageids \<and> imageids ! sindx = i
      then visited s imageids els (sindx + 1) vid
      else if has_vertices (element_vids s i vid)
      then (i, the (element_vids s i vid)) # visited s imageids els sindx (element_vids s i vid)
      else visited s imageids els sindx (element_vids s i vid))"

text \<open>All integrand calls succeed; the values they give.\<close>

definition all_succeed :: "'a functional_integrand \<Rightarrow> objectmesh \<Rightarrow> (nat \<times> nat list) list \<Rightarrow> bool" where
  "all_succeed f mesh vs = list_all (\<lambda>iv. f mesh (fst iv) (snd iv) \<noteq> None) vs"

definition results :: "'a functional_integrand \<Rightarrow> objectmesh \<Rightarrow> (nat \<times> nat list) list \<Rightarrow> 'a list" where
  "results f mesh vs = map (\<lambda>iv. the (f mesh (fst iv) (snd iv))) vs"

text \<open>The ids of these elements for the loop that \<open>functional_sumintegrand\<close> and
  \<open>functional_mapintegrand\<close> run for a map info.\<close>

definition evaluated_elements :: "'a functional_mapinfo \<Rightarrow> nat list" where
  "evaluated_elements info =
     (case functional_countelements (mi_mesh info) (mi_g info) of
        None \<Rightarrow> []
      | Some (n, s) \<Rightarrow>
          map fst (visited s (functional_symmetryimagelist (mi_mesh info) (mi_g info))
                     (loop_elements (mi_sel info) (mi_g info) n) 0
                     (if mi_g info = 0 then Some [] else None)))"

text \<open>The keys of a selection at the grade are distinct, as keys of a table are, and are
  ids of elements of the mesh.\<close>

definition selection_in_range :: "'a functional_mapinfo \<Rightarrow> bool" where
  "selection_in_range info =
     (case (mi_sel info, functional_countelements (mi_mesh info) (mi_g info)) of
        (Some sl, Some (n, s)) \<Rightarrow>
           distinct (sl (mi_g info)) \<and> list_all (\<lambda>i. i < n) (sl (mi_g info))
      | _ \<Rightarrow> True)"

text \<open>The data of the target after a step of the given size, and the total energy there:
  they depend on the data before, the force and the step size only.\<close>

definition stepped_data :: "'lc problem_ops \<Rightarrow> vec \<Rightarrow> vec option \<Rightarrow> real \<Rightarrow> vec option" where
  "stepped_data ops v frc sz =
     (case frc of
        None \<Rightarrow> Some v
      | Some f \<Rightarrow>
          do {
            v1 \<leftarrow> vec_acc v (- sz) f;
            lc \<leftarrow> po_initlocalconstraints ops v1;
            v2 \<leftarrow> po_reprojectlocalconstraints ops lc v1;
            po_reprojectconstraints ops lc v2
          })"

definition energy_at :: "'lc problem_ops \<Rightarrow> vec \<Rightarrow> vec option \<Rightarrow> real \<Rightarrow> real option" where
  "energy_at ops v frc sz = Option.bind (stepped_data ops v frc sz) (po_totalenergy ops)"

text \<open>The state of an optimizer as its user sees it: the data of the target, the force and
  the parameters. The store and the active local constraints are left out.\<close>

definition same_state :: "'lc optimizer \<Rightarrow> 'lc optimizer \<Rightarrow> bool" where
  "same_state a b =
     (target_data b = target_data a \<and> force b = force a \<and> stepsize b = stepsize a
      \<and> steplimit b = steplimit a \<and> energy b = energy a \<and> etol b = etol a
      \<and> linmintol b = linmintol a \<and> linminmax b = linminmax a)"

text \<open>
  The search for a bracket in the words of the specification, as a function of the energies
  alone; \<open>E\<close> gives the energy at a trial step size. From a triple of step sizes with
  their energies the search stops when E(s1) < E(s0) and E(s1) < E(s2). Otherwise it expands
  when E(s2) < E(s1): s1, s2 become s2, 2 s2; it contracts when E(s1) > E(s0): s1 becomes
  s1/2; it gives up when neither holds, and after \<open>n\<close> passes, without looking at the
  triple of the last pass. The second component counts the passes.
\<close>

fun bracket_search :: "(real \<Rightarrow> real) \<Rightarrow> nat \<Rightarrow> stepbracket \<Rightarrow> stepbracket option \<times> nat" where
  "bracket_search E 0 br = (None, 0)"
| "bracket_search E (Suc n) br =
     (if bracketed br then (Some br, 0)
      else if bracket2 br < bracket1 br then
        (case bracket_search E n
                (br\<lparr> s1 := s2 br, s2 := 2 * s2 br, bracket1 := bracket2 br,
                     bracket2 := E (2 * s2 br) \<rparr>) of
           (r, k) \<Rightarrow> (r, Suc k))
      else if bracket1 br > bracket0 br then
        (case bracket_search E n (br\<lparr> s1 := s1 br / 2, bracket1 := E (s1 br / 2) \<rparr>) of
           (r, k) \<Rightarrow> (r, Suc k))
      else (None, 0))"

text \<open>The triple after \<open>k\<close> expansions, and after \<open>k\<close> contractions, of the triple
  0, \<open>s\<close>, 2 \<open>s\<close>.\<close>

definition expanded :: "(real \<Rightarrow> real) \<Rightarrow> real \<Rightarrow> real \<Rightarrow> nat \<Rightarrow> stepbracket" where
  "expanded E e0 s k =
     \<lparr> s0 = 0, s1 = 2 ^ k * s, s2 = 2 ^ (k + 1) * s,
       bracket0 = e0, bracket1 = E (2 ^ k * s), bracket2 = E (2 ^ (k + 1) * s) \<rparr>"

definition contracted :: "(real \<Rightarrow> real) \<Rightarrow> real \<Rightarrow> real \<Rightarrow> nat \<Rightarrow> stepbracket" where
  "contracted E e0 s k =
     \<lparr> s0 = 0, s1 = s / 2 ^ k, s2 = 2 * s,
       bracket0 = e0, bracket1 = E (s / 2 ^ k), bracket2 = E (2 * s) \<rparr>"
section \<open>Results\<close>

subsection \<open>Constraint targets\<close>

text \<open>
  C2, as stated, at a concrete input: a functional whose total is 5 on every mesh is added
  as a local constraint without a target. The recorded target is 0 and not the total 5.
\<close>

theorem addlocalconstraint_target_counterexample:
  "c_target (fst (addlocalconstraint
       (OptimizationProblem_init (0::nat) :: (nat, nat, nat) OptimizationProblem)
       \<lparr> total = (\<lambda>m s. 5) \<rparr> None None False None))
     \<noteq> total \<lparr> total = (\<lambda>m s. 5) \<rparr> (0::nat) (None :: nat option)"
  by (simp add: addlocalconstraint_def Constraint_init_def OptimizationProblem_init_def Let_def)

text \<open>
  C2, amended: \<open>addconstraint\<close> records as target the functional's total on the problem's
  current mesh, restricted to the selection when one is given, and appends the constraint
  to the problem's constraints; \<open>addlocalconstraint\<close> records the target it is given, and 0
  when none is given, whatever the functional's total is, and appends the constraint to the
  local constraints.
\<close>

theorem constraint_target_capture:
  "c_target (fst (addconstraint self func sel fld)) = total func (p_mesh self) sel
   \<and> p_constraints (snd (addconstraint self func sel fld))
       = p_constraints self @ [fst (addconstraint self func sel fld)]
   \<and> c_target (fst (addlocalconstraint self func sel fld os (Some t))) = t
   \<and> c_target (fst (addlocalconstraint self func sel fld os None)) = 0
   \<and> p_localconstraints (snd (addlocalconstraint self func sel fld os tg))
       = p_localconstraints self @ [fst (addlocalconstraint self func sel fld os tg)]"
  by (cases sel) (simp_all add: addconstraint_def addlocalconstraint_def Constraint_init_def Let_def)

subsection \<open>Refinement of selections\<close>

lemma refsel_entry_set:
  "set (refineselection_entry d sel g k res)
     = set res \<union> {i. i = k \<and> (\<exists>p. map_of d i = Some (Single p) \<and> isselected sel g p)}"
  by (auto simp: refineselection_entry_def split: option.splits refentry.splits)

lemma fold_refsel_set:
  "set (fold (refineselection_entry d sel g) ks res)
     = set res \<union> {i \<in> set ks. \<exists>p. map_of d i = Some (Single p) \<and> isselected sel g p}"
proof (induction ks arbitrary: res)
  case Nil
  show ?case by simp
next
  case (Cons k ks)
  have "set (fold (refineselection_entry d sel g) (k # ks) res)
          = set (refineselection_entry d sel g k res)
            \<union> {i \<in> set ks. \<exists>p. map_of d i = Some (Single p) \<and> isselected sel g p}"
    by (simp add: Cons.IH)
  also have "\<dots> = set res
       \<union> {i \<in> set (k # ks). \<exists>p. map_of d i = Some (Single p) \<and> isselected sel g p}"
    unfolding refsel_entry_set by auto
  finally show ?case .
qed

lemma refineselection_grade_iff:
  "i \<in> set (refineselection_grade d sel g)
     \<longleftrightarrow> (\<exists>p. map_of d i = Some (Single p) \<and> isselected sel g p)"
proof (cases "selcount sel g = 0")
  case True
  then show ?thesis by (simp add: refineselection_grade_def selcount_def isselected_def)
next
  case False
  then show ?thesis
    by (auto simp: refineselection_grade_def fold_refsel_set dest: map_of_SomeD
             intro: rev_image_eqI)
qed

lemma split_pair_entries:
  assumes "split_pair coincide vert ij (Some st) = Some st'" and "map_of (dict st') i = Some e"
  shows "map_of (dict st) i = Some e \<or> (\<exists>a b. e = Parents [a, b])"
  using assms
  by (auto simp: split_pair_def addvertex_def update_conv' Let_def
           split: option.splits if_splits)

lemma split_pair_None: "split_pair coincide vert ij None = None"
  by (simp add: split_pair_def)

lemma fold_split_pair_None: "fold (split_pair coincide vert) ps None = None"
  by (induction ps) (simp_all add: split_pair_None)

lemma fold_split_pair_entries:
  assumes "fold (split_pair coincide vert) ps (Some st) = Some st'"
    and "map_of (dict st') i = Some e"
  shows "map_of (dict st) i = Some e \<or> (\<exists>a b. e = Parents [a, b])"
  using assms
proof (induction ps arbitrary: st)
  case Nil
  then show ?case by simp
next
  case (Cons ij ps)
  show ?case
  proof (cases "split_pair coincide vert ij (Some st)")
    case None
    with Cons.prems show ?thesis by (simp add: fold_split_pair_None)
  next
    case (Some st1)
    with Cons.prems have "fold (split_pair coincide vert) ps (Some st1) = Some st'" by simp
    from Cons.IH[OF this Cons.prems(2)] split_pair_entries[OF Some]
    show ?thesis by blast
  qed
qed

text \<open>
  C4, as stated, at a concrete input: the edge with vertices 0 and 1 at (0,0,0) and (1,0,0)
  is split, which creates the midpoint vertex 2 with the parents 0 and 1. Both parents are
  selected, and the refined selection does not hold vertex 2.
\<close>

theorem refineselection_midpoint_counterexample:
  "map_option dict (split (=) [0, 1] [[0, 0, 0], [1, 0, 0]]
      \<lparr> mb_vertices = [[0, 0, 0], [1, 0, 0]], tree = [([0, 0, 0], None), ([1, 0, 0], None)],
        dict = [(0, Single 0), (1, Single 1)] \<rparr>)
     = Some [(0, Single 0), (1, Single 1), (2, Parents [0, 1])]
   \<and> isselected (\<lambda>g. [0, 1]) 0 0 \<and> isselected (\<lambda>g. [0, 1]) 0 1
   \<and> map_option (\<lambda>res. isselected res 0 2)
        (refineselection
           (Some [[(0, Single 0), (1, Single 1), (2, Parents [0, 1])],
                  [(0, Single 0), (1, Single 0)]]) 1 (\<lambda>g. [0, 1]))
       = Some False"
  by (simp add: split_def vertex_pairs_def split_pair_def column_def midpoint_def
        ismember_def addvertex_def upt_rec refineselection_def isselected_def
        refineselection_grade_iff)

text \<open>
  C4, amended: with a refinement map that covers the grades of the new mesh,
  \<open>refineselection\<close> returns a selection in which, for every grade \<open>g\<close> of the new mesh and
  every id \<open>i\<close>, element \<open>i\<close> is selected if and only if the map sends \<open>i\<close> to a single
  parent id and that parent is selected in \<open>sel\<close>. An element that the map sends to a list
  of parents is never selected, and the entries that \<open>split\<close> adds for new midpoint
  vertices are such lists, of the two end points.
\<close>

theorem refineselection_single_parent:
  assumes "maxgrade < length rm" and "g \<le> maxgrade"
  shows "\<exists>res. refineselection (Some rm) maxgrade sel = Some res
    \<and> (isselected res g i \<longleftrightarrow>
          (\<exists>p. map_of (rm ! g) i = Some (Single p) \<and> isselected sel g p))
    \<and> (\<forall>ps. map_of (rm ! g) i = Some (Parents ps) \<longrightarrow> \<not> isselected res g i)
    \<and> (\<forall>st st' e. split coincide el vert st = Some st' \<and> map_of (dict st') i = Some e
           \<and> map_of (dict st) i \<noteq> Some e \<longrightarrow> (\<exists>a b. e = Parents [a, b]))"
proof -
  let ?res = "\<lambda>g. if g \<le> maxgrade then refineselection_grade (rm ! g) sel g else []"
  have r: "refineselection (Some rm) maxgrade sel = Some ?res"
    using assms by (simp add: refineselection_def)
  have a: "isselected ?res g i \<longleftrightarrow>
          (\<exists>p. map_of (rm ! g) i = Some (Single p) \<and> isselected sel g p)"
    using assms(2) by (simp add: isselected_def[of ?res] refineselection_grade_iff)
  have b: "\<forall>ps. map_of (rm ! g) i = Some (Parents ps) \<longrightarrow> \<not> isselected ?res g i"
    using a by auto
  have c: "\<forall>st st' e. split coincide el vert st = Some st' \<and> map_of (dict st') i = Some e
           \<and> map_of (dict st) i \<noteq> Some e \<longrightarrow> (\<exists>a b. e = Parents [a, b])"
    unfolding split_def using fold_split_pair_entries by blast
  from r a b c show ?thesis by blast
qed

theorem refineselection_single_parent_witness:
  "\<exists>res. refineselection
       (Some [[(0, Single 0), (1, Single 1), (2, Parents [0, 1])],
              [(0, Single 0), (1, Single 0)]]) 1 (\<lambda>g. if g = 1 then [0] else [0, 1]) = Some res
     \<and> isselected res 1 1"
proof -
  have h1: "(1::nat) < length [[(0::nat, Single 0), (1, Single 1), (2, Parents [0, 1])],
              [(0, Single 0), (1, Single 0)]]" by simp
  have h2: "(1::nat) \<le> 1" by simp
  have "isselected (\<lambda>g. if g = 1 then [0] else [0, 1]) 1 0" by (simp add: isselected_def)
  then show ?thesis
    using refineselection_single_parent[OF h1 h2, where sel = "\<lambda>g. if g = 1 then [0] else [0, 1]"
        and i = 1 and coincide = "(=)" and el = "[]" and vert = "[]"]
    by auto
qed

subsection \<open>Refinement of fields\<close>

lemma foldl_plus_sum_list: "foldl (+) a xs = a + sum_list (xs :: real list)"
  by (induction xs arbitrary: a) simp_all





















subsection \<open>Symmetry sums of forces\<close>

lemma symmetrysum_pair_dims:
  "nrows (symmetrysum_pair d ij frc) = nrows frc \<and> ncols (symmetrysum_pair d ij frc) = ncols frc"
  by (simp add: symmetrysum_pair_def matrix_getcolumn_def matrix_setcolumn_def Let_def)

lemma symmetrysum_pair_other:
  "c \<noteq> fst ij \<Longrightarrow> c \<noteq> snd ij \<Longrightarrow> elements (symmetrysum_pair d ij frc) c = elements frc c"
  by (simp add: symmetrysum_pair_def matrix_getcolumn_def matrix_setcolumn_def Let_def)

lemma symmetrysum_pair_sum:
  assumes "fst ij < ncols frc" and "snd ij < ncols frc" and "k < nrows frc" and "k < d"
    and "c = fst ij \<or> c = snd ij"
  shows "elements (symmetrysum_pair d ij frc) c k
           = elements frc (fst ij) k + elements frc (snd ij) k"
  using assms
  by (auto simp: symmetrysum_pair_def matrix_getcolumn_def matrix_setcolumn_def Let_def)

lemma fold_symmetrysum_dims:
  "nrows (fold (symmetrysum_pair d) ps frc) = nrows frc
   \<and> ncols (fold (symmetrysum_pair d) ps frc) = ncols frc"
  by (induction ps arbitrary: frc) (simp_all add: symmetrysum_pair_dims)

lemma fold_symmetrysum_other:
  "c \<notin> pair_indices ps \<Longrightarrow> elements (fold (symmetrysum_pair d) ps frc) c = elements frc c"
proof (induction ps arbitrary: frc)
  case Nil
  show ?case by simp
next
  case (Cons p ps)
  from Cons.prems have "c \<noteq> fst p" "c \<noteq> snd p" "c \<notin> pair_indices ps"
    by (auto simp: pair_indices_def)
  then show ?case by (simp add: Cons.IH symmetrysum_pair_other)
qed

lemma fold_symmetrysum_isolated:
  assumes "fst ij \<notin> pair_indices xs" "snd ij \<notin> pair_indices xs"
    and "fst ij \<notin> pair_indices ys" "snd ij \<notin> pair_indices ys"
    and "fst ij < ncols frc" "snd ij < ncols frc" "k < nrows frc" "k < d"
    and "c = fst ij \<or> c = snd ij"
  shows "elements (fold (symmetrysum_pair d) (xs @ ij # ys) frc) c k
           = elements frc (fst ij) k + elements frc (snd ij) k"
proof -
  let ?a = "fold (symmetrysum_pair d) xs frc"
  let ?b = "symmetrysum_pair d ij ?a"
  have c_ys: "c \<notin> pair_indices ys" using assms(3,4,9) by auto
  have "elements (fold (symmetrysum_pair d) (xs @ ij # ys) frc) c k = elements ?b c k"
    by (simp add: fold_symmetrysum_other[OF c_ys])
  also have "\<dots> = elements ?a (fst ij) k + elements ?a (snd ij) k"
    using assms(5-9) by (intro symmetrysum_pair_sum) (simp_all add: fold_symmetrysum_dims)
  also have "\<dots> = elements frc (fst ij) k + elements frc (snd ij) k"
    by (simp add: fold_symmetrysum_other[OF assms(1)] fold_symmetrysum_other[OF assms(2)])
  finally show ?thesis .
qed


text \<open>
  C3, as stated, at a concrete input: three vertices in one dimension, vertex 0 identified
  with vertex 1 and with vertex 2, a grade 0 functional with SYMMETRY_ADD whose gradient
  adds 1 to the force on the vertex. Each accumulated force is 1. After assembly the pair
  (0,1) has the columns 3 and 2: they differ, and column 0 is not the sum 2 of the pair.
\<close>

theorem symmetry_add_counterexample:
  "map_option (\<lambda>frc. map (\<lambda>c. elements frc c 0) [0, 1, 2])
     (mapgradient_accumulate
        \<lparr> mi_mesh = \<lparr> mesh_dim = 1, mesh_vert = object_newmatrix 0 1 3,
                      mesh_conn = (\<lambda>r c. if r = 0 \<and> c = 0
                         then Some \<lparr> sp_dok = \<lparr> dok_nrows = 1, dok_ncols = 3,
                                       dict_of = [((0, 1), Integer 1), ((0, 2), Integer 1)],
                                       keys_of = [(0, 1), (0, 2)] \<rparr>, sp_ccs = None \<rparr>
                         else None) \<rparr>,
          mi_sel = None, mi_g = 0, mi_integrand = (\<lambda>m i vid. Some (0::real)),
          mi_grad = (\<lambda>m i vid frc. Some (matrix_setelement frc 0 i (elements frc i 0 + 1))),
          mi_sym = SYMMETRY_ADD \<rparr> 3 None)
     = Some [1, 1, 1]
   \<and> map_option (\<lambda>frc. map (\<lambda>c. elements frc c 0) [0, 1, 2])
     (snd (functional_mapgradient
        \<lparr> mi_mesh = \<lparr> mesh_dim = 1, mesh_vert = object_newmatrix 0 1 3,
                      mesh_conn = (\<lambda>r c. if r = 0 \<and> c = 0
                         then Some \<lparr> sp_dok = \<lparr> dok_nrows = 1, dok_ncols = 3,
                                       dict_of = [((0, 1), Integer 1), ((0, 2), Integer 1)],
                                       keys_of = [(0, 1), (0, 2)] \<rparr>, sp_ccs = None \<rparr>
                         else None) \<rparr>,
          mi_sel = None, mi_g = 0, mi_integrand = (\<lambda>m i vid. Some (0::real)),
          mi_grad = (\<lambda>m i vid frc. Some (matrix_setelement frc 0 i (elements frc i 0 + 1))),
          mi_sym = SYMMETRY_ADD \<rparr>))
     = Some [3, 2, 3]"
  by (simp add: functional_mapgradient_def mapgradient_accumulate_def functional_countelements_def
        loop_elements_def object_newmatrix_def upt_rec has_vertices_def element_vids_def
        matrix_setelement_def functional_symmetrysumforces_def symmetrysum_pair_def
        matrix_getcolumn_def matrix_setcolumn_def Let_def)

text \<open>
  C3, amended: let the functional declare SYMMETRY_ADD and let the element loop of the
  gradient succeed with the accumulated force matrix \<open>acc\<close>. For every key (i, j) of
  C(0,0) whose two vertices occur in no other key and are columns of the force matrix,
  the returned matrix has in column i and in column j, in every row, the sum of the two
  accumulated forces of the pair.
\<close>

theorem symmetry_add_isolated_pair:
  assumes "mi_sym info = SYMMETRY_ADD"
    and "functional_countelements (mi_mesh info) (mi_g info) = Some (n, s)" and "n > 0"
    and "mapgradient_accumulate info n s = Some acc"
    and "mesh_conn (mi_mesh info) 0 0 = Some c00"
    and "keys_of (sp_dok c00) = xs @ (i, j) # ys"
    and "i \<notin> pair_indices xs" and "j \<notin> pair_indices xs"
    and "i \<notin> pair_indices ys" and "j \<notin> pair_indices ys"
    and "i < ncols acc" and "j < ncols acc"
    and "k < nrows acc" and "k < mesh_dim (mi_mesh info)"
  shows "\<exists>frc. functional_mapgradient info = (True, Some frc)
    \<and> elements frc i k = elements acc i k + elements acc j k
    \<and> elements frc j k = elements acc i k + elements acc j k"
proof -
  let ?frc = "functional_symmetrysumforces (mi_mesh info) acc"
  have r: "functional_mapgradient info = (True, Some ?frc)"
    using assms(1-4) by (simp add: functional_mapgradient_def)
  have f: "?frc = fold (symmetrysum_pair (mesh_dim (mi_mesh info))) (xs @ (i, j) # ys) acc"
    using assms(5,6) by (simp add: functional_symmetrysumforces_def)
  have "elements ?frc c k = elements acc i k + elements acc j k" if "c = i \<or> c = j" for c
    unfolding f
    using fold_symmetrysum_isolated[of "(i, j)" xs ys acc k "mesh_dim (mi_mesh info)" c]
      assms(7-14) that
    by simp
  with r show ?thesis by blast
qed

theorem symmetry_add_isolated_pair_witness:
  "\<exists>frc. functional_mapgradient
        \<lparr> mi_mesh = \<lparr> mesh_dim = 1, mesh_vert = object_newmatrix 0 1 3,
                      mesh_conn = (\<lambda>r c. if r = 0 \<and> c = 0
                         then Some \<lparr> sp_dok = \<lparr> dok_nrows = 1, dok_ncols = 3,
                                       dict_of = [((0, 2), Integer 1)],
                                       keys_of = [(0, 2)] \<rparr>, sp_ccs = None \<rparr>
                         else None) \<rparr>,
          mi_sel = None, mi_g = 0, mi_integrand = (\<lambda>m i vid. Some (0::real)),
          mi_grad = (\<lambda>m i vid frc. Some (matrix_setelement frc 0 i (elements frc i 0 + 1))),
          mi_sym = SYMMETRY_ADD \<rparr> = (True, Some frc)
     \<and> elements frc 0 0 = 2 \<and> elements frc 2 0 = 2"
proof -
  let ?info = "\<lparr> mi_mesh = \<lparr> mesh_dim = 1, mesh_vert = object_newmatrix 0 1 3,
                      mesh_conn = (\<lambda>r c. if r = 0 \<and> c = 0
                         then Some \<lparr> sp_dok = \<lparr> dok_nrows = 1, dok_ncols = 3,
                                       dict_of = [((0, 2), Integer 1)],
                                       keys_of = [(0, 2)] \<rparr>, sp_ccs = None \<rparr>
                         else None) \<rparr>,
          mi_sel = None, mi_g = 0, mi_integrand = (\<lambda>m i vid. Some (0::real)),
          mi_grad = (\<lambda>m i vid frc. Some (matrix_setelement frc 0 i (elements frc i 0 + 1))),
          mi_sym = SYMMETRY_ADD \<rparr>"
  let ?acc = "\<lparr> nrows = 1, ncols = 3, elements = (\<lambda>c r. if c < 3 \<and> r = 0 then 1 else (0::real)) \<rparr>"
  let ?c00 = "\<lparr> sp_dok = \<lparr> dok_nrows = 1, dok_ncols = 3, dict_of = [((0, 2), Integer 1)],
                    keys_of = [(0, 2)] \<rparr>, sp_ccs = None \<rparr>"
  have h1: "mi_sym ?info = SYMMETRY_ADD" by simp
  have h2: "functional_countelements (mi_mesh ?info) (mi_g ?info) = Some (3, None)"
    by (simp add: functional_countelements_def object_newmatrix_def)
  have h3: "(3::nat) > 0" by simp
  have h4: "mapgradient_accumulate ?info 3 None = Some ?acc"
    by (simp add: mapgradient_accumulate_def loop_elements_def object_newmatrix_def upt_rec
          has_vertices_def element_vids_def matrix_setelement_def fun_eq_iff)
  have h5: "mesh_conn (mi_mesh ?info) 0 0 = Some ?c00" by simp
  have h6: "keys_of (sp_dok ?c00) = [] @ (0, 2) # []" by simp
  have h7: "0 \<notin> pair_indices []" "2 \<notin> pair_indices []" by (simp_all add: pair_indices_def)
  have h8: "0 < ncols ?acc" "2 < ncols ?acc" "0 < nrows ?acc" "0 < mesh_dim (mi_mesh ?info)"
    by simp_all
  show ?thesis
    using symmetry_add_isolated_pair[OF h1 h2 h3 h4 h5 h6 h7(1) h7(2) h7(1) h7(2) h8]
    by simp
qed

subsection \<open>Numerical gradients and the vertex coordinates\<close>

text \<open>When a numerical gradient returns \<open>true\<close>, the mesh is what it was before the call.\<close>

lemma matrix_setelement_restore:
  "matrix_getelement m row col = Some x \<Longrightarrow>
     matrix_setelement (matrix_setelement (matrix_setelement m row col a) row col b) row col x = m"
  by (auto simp: matrix_getelement_def matrix_setelement_def split: if_splits)

lemma matrix_setelement_outside:
  "matrix_getelement m row col = None \<Longrightarrow> matrix_setelement m row col a = m"
  by (auto simp: matrix_getelement_def matrix_setelement_def split: if_splits)

lemma set_vertex_coordinate_restore_Some:
  "matrix_getelement (mesh_vert mesh) k tv = Some v \<Longrightarrow>
   set_vertex_coordinate (set_vertex_coordinate (set_vertex_coordinate mesh k tv a) k tv b) k tv v
     = mesh"
  by (simp add: set_vertex_coordinate_def matrix_setelement_restore)

lemma set_vertex_coordinate_restore_None:
  "matrix_getelement (mesh_vert mesh) k tv = None \<Longrightarrow>
   set_vertex_coordinate (set_vertex_coordinate (set_vertex_coordinate mesh k tv a) k tv b) k tv c
     = mesh"
  by (simp add: set_vertex_coordinate_def matrix_setelement_outside)

lemma numgrad_coordinate_restores:
  assumes "numgrad_coordinate integrand i vid tvk (mesh, frc, f0, x0) = (True, (mesh', rest))"
  shows "mesh' = mesh"
  using assms
  by (auto simp: numgrad_coordinate_def Let_def set_vertex_coordinate_restore_Some
                 set_vertex_coordinate_restore_None
           split: option.splits)

lemma numgrad_loop_restores:
  assumes "numgrad_loop integrand i vid ps (mesh, frc, f0, x0) = (True, (mesh', rest))"
  shows "mesh' = mesh"
  using assms
proof (induction ps arbitrary: mesh frc f0 x0)
  case Nil
  then show ?case by simp
next
  case (Cons p ps)
  obtain ok m1 frc1 f1 x1 where
    st: "numgrad_coordinate integrand i vid p (mesh, frc, f0, x0) = (ok, (m1, frc1, f1, x1))"
    by (metis prod_cases4 surj_pair)
  show ?case
  proof (cases ok)
    case True
    from st True
    have "numgrad_coordinate integrand i vid p (mesh, frc, f0, x0) = (True, (m1, (frc1, f1, x1)))"
      by simp
    then have "m1 = mesh" by (rule numgrad_coordinate_restores)
    moreover from Cons.prems st True
    have "numgrad_loop integrand i vid ps (m1, frc1, f1, x1) = (True, (mesh', rest))" by simp
    ultimately show ?thesis using Cons.IH by blast
  next
    case False
    with Cons.prems st show ?thesis by simp
  qed
qed

lemma numericalgradient_success_restores:
  "functional_numericalgradient mesh i vid integrand frc f0 x0 = (True, (mesh', rest))
     \<Longrightarrow> mesh' = mesh"
  unfolding functional_numericalgradient_def by (rule numgrad_loop_restores)

lemma numericalremotegradient_success_restores:
  "functional_numericalremotegradient mesh integrand remoteid i vid frc f0 x0 = (True, (mesh', rest))
     \<Longrightarrow> mesh' = mesh"
  unfolding functional_numericalremotegradient_def by (rule numgrad_loop_restores)

text \<open>
  C9 at a failing input. A mesh in one dimension with vertex 0 at 0 and vertex 1 at
  1e-8 + 1e-11, and an integrand with the degenerate edge test of the curvature integrands:
  it fails when the squared edge length is below 1e-16, and gives the length otherwise. On
  the mesh as it is the integrand succeeds. The gradient perturbs vertex 0 to 1e-10, where
  the integrand fails, and returns \<open>false\<close> at once: the coordinate of vertex 0 is 1e-10
  after the call and was 0 before. The remote gradient does the same.
\<close>

theorem numericalgradient_failure_keeps_perturbation:
  "(\<lambda>m i vid.
        if (elements (mesh_vert m) (vid ! 1) 0 - elements (mesh_vert m) (vid ! 0) 0)\<^sup>2 < 1 / 10 ^ 16
        then None
        else Some \<bar>elements (mesh_vert m) (vid ! 1) 0 - elements (mesh_vert m) (vid ! 0) 0\<bar>)
     \<lparr> mesh_dim = 1,
       mesh_vert = \<lparr> nrows = 1, ncols = 2,
                     elements = (\<lambda>c r. if c = 1 then 1 / 10 ^ 8 + 1 / 10 ^ 11 else 0) \<rparr>,
       mesh_conn = (\<lambda>r c. None) \<rparr> 0 [0, 1] \<noteq> None
   \<and> (case functional_numericalgradient
        \<lparr> mesh_dim = 1,
          mesh_vert = \<lparr> nrows = 1, ncols = 2,
                        elements = (\<lambda>c r. if c = 1 then 1 / 10 ^ 8 + 1 / 10 ^ 11 else 0) \<rparr>,
          mesh_conn = (\<lambda>r c. None) \<rparr> 0 [0, 1]
        (\<lambda>m i vid.
           if (elements (mesh_vert m) (vid ! 1) 0 - elements (mesh_vert m) (vid ! 0) 0)\<^sup>2 < 1 / 10 ^ 16
           then None
           else Some \<bar>elements (mesh_vert m) (vid ! 1) 0 - elements (mesh_vert m) (vid ! 0) 0\<bar>)
        (object_newmatrix 0 1 2) 0 0 of
      (ok, (mesh', rest)) \<Rightarrow> \<not> ok \<and> elements (mesh_vert mesh') 0 0 = 1 / 10 ^ 10)
   \<and> (case functional_numericalremotegradient
        \<lparr> mesh_dim = 1,
          mesh_vert = \<lparr> nrows = 1, ncols = 2,
                        elements = (\<lambda>c r. if c = 1 then 1 / 10 ^ 8 + 1 / 10 ^ 11 else 0) \<rparr>,
          mesh_conn = (\<lambda>r c. None) \<rparr>
        (\<lambda>m i vid.
           if (elements (mesh_vert m) (vid ! 1) 0 - elements (mesh_vert m) (vid ! 0) 0)\<^sup>2 < 1 / 10 ^ 16
           then None
           else Some \<bar>elements (mesh_vert m) (vid ! 1) 0 - elements (mesh_vert m) (vid ! 0) 0\<bar>)
        0 0 [0, 1] (object_newmatrix 0 1 2) 0 0 of
      (ok, (mesh', rest)) \<Rightarrow> \<not> ok \<and> elements (mesh_vert mesh') 0 0 = 1 / 10 ^ 10)"
  by (simp add: functional_numericalgradient_def functional_numericalremotegradient_def upt_rec
        numgrad_coordinate_def matrix_getelement_def object_newmatrix_def
        set_vertex_coordinate_def matrix_setelement_def numgrad_eps_def Let_def power2_eq_square)

subsection \<open>Total and integrand\<close>

lemma kahan_step_pair:
  "kahan_step ops x (sm, c) =
     (fl_add ops sm (fl_sub ops x c),
      fl_sub ops (fl_sub ops (fl_add ops sm (fl_sub ops x c)) sm) (fl_sub ops x c))"
  by (simp add: kahan_step_def Let_def)

lemma sumintegrand_loop_visited:
  "sumintegrand_loop ops f mesh s ims els sindx vid sm c =
     (if all_succeed f mesh (visited s ims els sindx vid)
      then Some (fst (fold (kahan_step ops) (results f mesh (visited s ims els sindx vid)) (sm, c)))
      else None)"
proof (induction els arbitrary: sindx vid sm c)
  case Nil
  show ?case by (simp add: all_succeed_def results_def)
next
  case (Cons i els)
  show ?case
    by (auto simp: Cons.IH all_succeed_def results_def kahan_step_pair Let_def
             split: option.splits)
qed

lemma mapintegrand_loop_visited:
  "mapintegrand_loop f mesh s ims els sindx vid new =
     (if all_succeed f mesh (visited s ims els sindx vid)
      then Some (fold (\<lambda>iv m. matrix_setelement m 0 (fst iv) (the (f mesh (fst iv) (snd iv))))
                   (visited s ims els sindx vid) new)
      else None)"
proof (induction els arbitrary: sindx vid new)
  case Nil
  show ?case by (simp add: all_succeed_def)
next
  case (Cons i els)
  show ?case
    by (auto simp: Cons.IH all_succeed_def split: option.splits)
qed

lemma visited_subset: "set (map fst (visited s ims els sindx vid)) \<subseteq> set els"
  by (induction els arbitrary: sindx vid) auto

lemma visited_distinct: "distinct els \<Longrightarrow> distinct (map fst (visited s ims els sindx vid))"
proof (induction els arbitrary: sindx vid)
  case Nil
  show ?case by simp
next
  case (Cons i els)
  then have "i \<notin> set (map fst (visited s ims els sx v))" for sx v
    using visited_subset[of s ims els sx v] by auto
  with Cons show ?case by auto
qed

lemma fold_setelement_dims:
  "nrows (fold (\<lambda>iv m. matrix_setelement m 0 (fst iv) (h iv)) vs new) = nrows new
   \<and> ncols (fold (\<lambda>iv m. matrix_setelement m 0 (fst iv) (h iv)) vs new) = ncols new"
  by (induction vs arbitrary: new) (simp_all add: matrix_setelement_def)

lemma fold_setelement_other:
  "i \<notin> set (map fst vs) \<Longrightarrow>
     elements (fold (\<lambda>iv m. matrix_setelement m 0 (fst iv) (h iv)) vs new) i 0 = elements new i 0"
  by (induction vs arbitrary: new) (auto simp: matrix_setelement_def)

lemma fold_setelement_entries:
  assumes "distinct (map fst vs)" and "\<forall>i \<in> set (map fst vs). i < ncols new" and "0 < nrows new"
  shows "map (\<lambda>i. elements (fold (\<lambda>iv m. matrix_setelement m 0 (fst iv) (h iv)) vs new) i 0)
             (map fst vs) = map h vs"
  using assms
proof (induction vs arbitrary: new)
  case Nil
  show ?case by simp
next
  case (Cons v vs)
  let ?n = "matrix_setelement new 0 (fst v) (h v)"
  have dims: "ncols ?n = ncols new" "nrows ?n = nrows new" by (simp_all add: matrix_setelement_def)
  have "elements (fold (\<lambda>iv m. matrix_setelement m 0 (fst iv) (h iv)) vs ?n) (fst v) 0
          = elements ?n (fst v) 0"
    using Cons.prems(1) by (intro fold_setelement_other) simp
  also have "\<dots> = h v" using Cons.prems(2,3) by (simp add: matrix_setelement_def)
  finally have hd: "elements (fold (\<lambda>iv m. matrix_setelement m 0 (fst iv) (h iv)) vs ?n) (fst v) 0
          = h v" .
  have tl: "map (\<lambda>i. elements (fold (\<lambda>iv m. matrix_setelement m 0 (fst iv) (h iv)) vs ?n) i 0)
             (map fst vs) = map h vs"
    using Cons.prems by (intro Cons.IH) (simp_all add: dims)
  show ?case using hd tl by simp
qed

lemma loop_elements_ok:
  assumes "selection_in_range info"
    and "functional_countelements (mi_mesh info) (mi_g info) = Some (n, s)"
  shows "distinct (loop_elements (mi_sel info) (mi_g info) n)
       \<and> (\<forall>i \<in> set (loop_elements (mi_sel info) (mi_g info) n). i < n)"
  using assms
  by (auto simp: selection_in_range_def loop_elements_def list_all_iff split: option.splits)

text \<open>For every map info whose selection, if any, has distinct keys in range, the value
  of \<open>total\<close> is the compensated sum, with the same operations, of the entries of the row
  that \<open>integrand\<close> returns, over the elements that the loop evaluates; both fail
  together, and both give no value on a mesh without elements of the grade.\<close>

lemma sum_is_kahan_of_map:
  assumes "selection_in_range info"
  shows "snd (functional_sumintegrand ops info)
     = map_option (\<lambda>new. kahan_sum ops (map (\<lambda>i. elements new i 0) (evaluated_elements info)))
         (snd (functional_mapintegrand (fl_zero ops) info))"
proof (cases "functional_countelements (mi_mesh info) (mi_g info)")
  case None
  then show ?thesis by (simp add: functional_sumintegrand_def functional_mapintegrand_def)
next
  case (Some ns)
  obtain n s where ns: "ns = (n, s)" by (cases ns)
  note cnt = Some[unfolded ns]
  show ?thesis
  proof (cases "n > 0")
    case False
    with cnt show ?thesis by (simp add: functional_sumintegrand_def functional_mapintegrand_def)
  next
    case True
    let ?f = "mi_integrand info" and ?mesh = "mi_mesh info"
    let ?vs = "visited s (functional_symmetryimagelist (mi_mesh info) (mi_g info))
                 (loop_elements (mi_sel info) (mi_g info) n) 0
                 (if mi_g info = 0 then Some [] else None)"
    let ?h = "\<lambda>iv. the (?f ?mesh (fst iv) (snd iv))"
    let ?new = "object_newmatrix (fl_zero ops) 1 n"
    have ev: "evaluated_elements info = map fst ?vs"
      by (simp add: evaluated_elements_def cnt)
    from loop_elements_ok[OF assms cnt]
    have d: "distinct (map fst ?vs)" and r: "\<forall>i \<in> set (map fst ?vs). i < ncols ?new"
      using visited_distinct visited_subset by (fastforce simp: object_newmatrix_def)+
    have "map (\<lambda>i. elements (fold (\<lambda>iv m. matrix_setelement m 0 (fst iv) (?h iv)) ?vs ?new) i 0)
              (map fst ?vs) = map ?h ?vs"
      using d r by (intro fold_setelement_entries) (simp_all add: object_newmatrix_def)
    then have "results ?f ?mesh ?vs
       = map (\<lambda>i. elements (fold (\<lambda>iv m. matrix_setelement m 0 (fst iv) (?h iv)) ?vs ?new) i 0)
              (evaluated_elements info)"
      by (simp add: results_def ev)
    then show ?thesis
      using True cnt
      by (simp add: functional_sumintegrand_def functional_mapintegrand_def
            sumintegrand_loop_visited mapintegrand_loop_visited kahan_sum_def)
  qed
qed

text \<open>The skipping of image elements in the loop over all elements.\<close>

lemma visited_upt_images:
  assumes "sorted_wrt (<) (drop sindx ims)" and "\<forall>x \<in> set (drop sindx ims). a \<le> x"
  shows "set (map fst (visited s ims [a ..< n] sindx vid)) \<inter> set (drop sindx ims) = {}"
  using assms
proof (induction "n - a" arbitrary: a sindx vid)
  case 0
  then show ?case by simp
next
  case (Suc d)
  then have lt: "a < n" by simp
  then have upt: "[a ..< n] = a # [Suc a ..< n]" by (simp add: upt_rec)
  have d': "d = n - Suc a" using Suc.hyps(2) by simp
  show ?case
  proof (cases "sindx < length ims \<and> ims ! sindx = a")
    case True
    then have dr: "drop sindx ims = a # drop (Suc sindx) ims"
      by (metis Cons_nth_drop_Suc)
    with Suc.prems have s': "sorted_wrt (<) (drop (Suc sindx) ims)"
      and b': "\<forall>x \<in> set (drop (Suc sindx) ims). Suc a \<le> x"
      by auto
    have ih: "set (map fst (visited s ims [Suc a ..< n] (Suc sindx) vid))
                 \<inter> set (drop (Suc sindx) ims) = {}"
      using Suc.hyps(1)[OF d' s' b'] .
    have "a \<notin> set (map fst (visited s ims [Suc a ..< n] (Suc sindx) vid))"
      using visited_subset[of s ims "[Suc a ..< n]" "Suc sindx" vid] by auto
    with ih True show ?thesis by (simp add: upt dr)
  next
    case False
    have na: "a \<notin> set (drop sindx ims)"
    proof
      assume ain: "a \<in> set (drop sindx ims)"
      then have ne: "drop sindx ims \<noteq> []" by auto
      then have sl: "sindx < length ims" by simp
      then have dr: "drop sindx ims = ims ! sindx # drop (Suc sindx) ims"
        by (metis Cons_nth_drop_Suc)
      with Suc.prems ain have "ims ! sindx = a" by (fastforce simp: dr)
      with sl False show False by simp
    qed
    with Suc.prems(2) have b': "\<forall>x \<in> set (drop sindx ims). Suc a \<le> x"
      by (metis Suc_leI le_neq_implies_less)
    have ih: "set (map fst (visited s ims [Suc a ..< n] sindx v)) \<inter> set (drop sindx ims) = {}" for v
      using Suc.hyps(1)[OF d' Suc.prems(1) b'] .
    from False na ih show ?thesis by (auto simp: upt)
  qed
qed

lemma evaluated_skip_images:
  assumes "mi_sel info = None"
    and "distinct (functional_symmetryimagelist (mi_mesh info) (mi_g info))"
  shows "set (evaluated_elements info)
           \<inter> set (functional_symmetryimagelist (mi_mesh info) (mi_g info)) = {}"
proof (cases "functional_countelements (mi_mesh info) (mi_g info)")
  case None
  then show ?thesis by (simp add: evaluated_elements_def)
next
  case (Some ns)
  obtain n s where ns: "ns = (n, s)" by (cases ns)
  let ?ims = "functional_symmetryimagelist (mi_mesh info) (mi_g info)"
  have "sorted ?ims"
    by (simp add: functional_symmetryimagelist_def split: option.splits)
  with assms(2) have "sorted_wrt (<) (drop 0 ?ims)"
    by (simp add: strict_sorted_iff)
  from visited_upt_images[OF this, of 0 _ n]
  show ?thesis using assms(1) Some ns
    by (simp add: evaluated_elements_def loop_elements_def)
qed

text \<open>
  C1 at a failing input. Six vertices; C(0,0) has the keys (0,2) and (1,5), so the image
  list is [2, 5]; the selection holds vertex 5 only; the integrand of the grade 0 functional
  is 7 on every vertex. Vertex 5 is an image, and the index into the image list still
  points at 2 when the loop reaches it: both operations evaluate it. The total is 7 and the
  entry of vertex 5 in the integrand row is 7, where skipping the image gives 0.
\<close>

theorem image_in_selection_not_skipped:
  "functional_symmetryimagelist
       \<lparr> mesh_dim = 1, mesh_vert = object_newmatrix 0 1 6,
         mesh_conn = (\<lambda>r c. if r = 0 \<and> c = 0
            then Some \<lparr> sp_dok = \<lparr> dok_nrows = 2, dok_ncols = 6,
                          dict_of = [((0, 2), Integer 1), ((1, 5), Integer 1)],
                          keys_of = [(1, 5), (0, 2)] \<rparr>, sp_ccs = None \<rparr>
            else None) \<rparr> 0 = [2, 5]
   \<and> snd (functional_sumintegrand \<lparr> fl_zero = 0, fl_add = (+), fl_sub = (-) \<rparr>
        \<lparr> mi_mesh = \<lparr> mesh_dim = 1, mesh_vert = object_newmatrix 0 1 6,
                      mesh_conn = (\<lambda>r c. if r = 0 \<and> c = 0
                         then Some \<lparr> sp_dok = \<lparr> dok_nrows = 2, dok_ncols = 6,
                                       dict_of = [((0, 2), Integer 1), ((1, 5), Integer 1)],
                                       keys_of = [(1, 5), (0, 2)] \<rparr>, sp_ccs = None \<rparr>
                         else None) \<rparr>,
          mi_sel = Some (\<lambda>g. if g = 0 then [5] else []), mi_g = 0,
          mi_integrand = (\<lambda>m i vid. Some (7::real)),
          mi_grad = (\<lambda>m i vid frc. Some frc), mi_sym = SYMMETRY_NONE \<rparr>) = Some 7
   \<and> map_option (\<lambda>new. elements new 5 0)
       (snd (functional_mapintegrand 0
        \<lparr> mi_mesh = \<lparr> mesh_dim = 1, mesh_vert = object_newmatrix 0 1 6,
                      mesh_conn = (\<lambda>r c. if r = 0 \<and> c = 0
                         then Some \<lparr> sp_dok = \<lparr> dok_nrows = 2, dok_ncols = 6,
                                       dict_of = [((0, 2), Integer 1), ((1, 5), Integer 1)],
                                       keys_of = [(1, 5), (0, 2)] \<rparr>, sp_ccs = None \<rparr>
                         else None) \<rparr>,
          mi_sel = Some (\<lambda>g. if g = 0 then [5] else []), mi_g = 0,
          mi_integrand = (\<lambda>m i vid. Some (7::real)),
          mi_grad = (\<lambda>m i vid frc. Some frc), mi_sym = SYMMETRY_NONE \<rparr>)) = Some 7"
  by (simp add: functional_symmetryimagelist_def functional_sumintegrand_def
        functional_mapintegrand_def functional_countelements_def object_newmatrix_def
        loop_elements_def has_vertices_def element_vids_def matrix_setelement_def Let_def)

subsection \<open>The energy at a trial step size\<close>

lemma step_frame:
  assumes "step ops sz self = Some self'"
  shows "target_ref self' = target_ref self \<and> heap_next self' = heap_next self
       \<and> force self' = force self \<and> stepsize self' = stepsize self
       \<and> steplimit self' = steplimit self \<and> energy self' = energy self
       \<and> etol self' = etol self \<and> linmintol self' = linmintol self
       \<and> linminmax self' = linminmax self
       \<and> (\<forall>r. r \<noteq> target_ref self \<longrightarrow> heap self' r = heap self r)"
  using assms
  by (auto simp: step_def gettarget_def split: option.splits Option.bind_splits)

lemma step_data:
  "map_option target_data (step ops sz self) = stepped_data ops (target_data self) (force self) sz"
  by (auto simp: step_def stepped_data_def gettarget_def target_data_def
           split: option.splits Option.bind_splits)

lemma energywithstepsize_Some:
  assumes "target_ref self < heap_next self"
    and "energywithstepsize ops kind sz self = Some (en, self')"
  shows "target_data self' = target_data self"
    and "energy_at ops (target_data self) (force self) sz = Some en"
    and "force self' = force self" and "stepsize self' = stepsize self"
    and "steplimit self' = steplimit self" and "energy self' = energy self"
    and "etol self' = etol self" and "linmintol self' = linmintol self"
    and "linminmax self' = linminmax self"
    and "heap_next self' = Suc (heap_next self)" and "target_ref self' < heap_next self'"
proof -
  let ?c = "self\<lparr> heap := (heap self)(heap_next self := heap self (target_ref self)),
                  heap_next := Suc (heap_next self) \<rparr>"
  from assms(2) obtain self2 where st: "step ops sz ?c = Some self2"
    and en: "totalenergy ops self2 = Some en"
    and r: "self' = settarget kind (heap_next self) self2"
    by (auto simp: energywithstepsize_def clone_def gettarget_def Let_def
             split: Option.bind_splits)
  note fr = step_frame[OF st]
  have ne: "heap_next self \<noteq> target_ref self" using assms(1) by simp
  have sv: "heap self2 (heap_next self) = heap self (target_ref self)"
    using fr ne by simp
  show "target_data self' = target_data self"
    using r sv fr by (cases kind) (simp_all add: settarget_def target_data_def)
  have "target_data ?c = target_data self" using ne by (simp add: target_data_def)
  with step_data[of ops sz ?c] st
  have "stepped_data ops (target_data self) (force self) sz = Some (target_data self2)"
    by simp
  with en show "energy_at ops (target_data self) (force self) sz = Some en"
    by (simp add: energy_at_def totalenergy_def)
  show "force self' = force self" "stepsize self' = stepsize self"
    "steplimit self' = steplimit self" "energy self' = energy self"
    "etol self' = etol self" "linmintol self' = linmintol self"
    "linminmax self' = linminmax self"
    "heap_next self' = Suc (heap_next self)"
    using r fr by (cases kind; simp add: settarget_def)+
  show "target_ref self' < heap_next self'"
    using r fr assms(1) by (cases kind) (simp_all add: settarget_def)
qed

lemma energywithstepsize_returns:
  assumes "target_ref self < heap_next self"
    and "energy_at ops (target_data self) (force self) sz = Some en"
  shows "\<exists>self'. energywithstepsize ops kind sz self = Some (en, self')"
proof -
  let ?c = "self\<lparr> heap := (heap self)(heap_next self := heap self (target_ref self)),
                  heap_next := Suc (heap_next self) \<rparr>"
  have ne: "heap_next self \<noteq> target_ref self" using assms(1) by simp
  have "target_data ?c = target_data self" using ne by (simp add: target_data_def)
  with step_data[of ops sz ?c]
  have "map_option target_data (step ops sz ?c)
          = stepped_data ops (target_data self) (force self) sz" by simp
  with assms(2) obtain self2 where "step ops sz ?c = Some self2"
    and "po_totalenergy ops (target_data self2) = Some en"
    by (auto simp: energy_at_def split: Option.bind_splits)
  then show ?thesis
    by (simp add: energywithstepsize_def clone_def gettarget_def totalenergy_def)
qed

lemma energy_at_step:
  "energy_at ops (target_data self) (force self) sz = Some en
     \<longleftrightarrow> (\<exists>self2. step ops sz self = Some self2 \<and> totalenergy ops self2 = Some en)"
proof -
  have "stepped_data ops (target_data self) (force self) sz
          = map_option target_data (step ops sz self)"
    by (simp add: step_data)
  then show ?thesis
    by (cases "step ops sz self") (auto simp: energy_at_def totalenergy_def)
qed

text \<open>
  C10: for an optimizer of either kind whose target is an object of the store,
  \<open>energywithstepsize(size)\<close> raises an error exactly when the step, or the total energy
  after the step, does; otherwise it returns the total energy of the state that \<open>step(size)\<close>
  (the move along the force followed by the reprojection onto the local and the global
  constraints) produces, and the data of the target afterwards is the data before the call.
\<close>

theorem energywithstepsize_restores_target:
  assumes "target_ref self < heap_next self"
  shows "(energywithstepsize ops kind sz self = None
            \<longleftrightarrow> (\<forall>self2. step ops sz self = Some self2 \<longrightarrow> totalenergy ops self2 = None))
    \<and> (\<forall>en self'. energywithstepsize ops kind sz self = Some (en, self') \<longrightarrow>
           target_data self' = target_data self
           \<and> (\<exists>self2. step ops sz self = Some self2 \<and> totalenergy ops self2 = Some en))"
proof -
  have a: "target_data self' = target_data self
           \<and> (\<exists>self2. step ops sz self = Some self2 \<and> totalenergy ops self2 = Some en)"
    if "energywithstepsize ops kind sz self = Some (en, self')" for en self'
    using energywithstepsize_Some(1,2)[OF assms that] by (simp add: energy_at_step)
  have b: "energywithstepsize ops kind sz self \<noteq> None"
    if "step ops sz self = Some self2" "totalenergy ops self2 = Some en" for self2 en
  proof -
    from that have "energy_at ops (target_data self) (force self) sz = Some en"
      by (auto simp: energy_at_step)
    from energywithstepsize_returns[OF assms this, of kind] show ?thesis by auto
  qed
  have c: "\<forall>self2. step ops sz self = Some self2 \<longrightarrow> totalenergy ops self2 = None"
    if "energywithstepsize ops kind sz self = None"
    using b that by (metis option.exhaust)
  have d: "energywithstepsize ops kind sz self = None"
    if "\<forall>self2. step ops sz self = Some self2 \<longrightarrow> totalenergy ops self2 = None"
  proof (rule ccontr)
    assume "energywithstepsize ops kind sz self \<noteq> None"
    then obtain en self' where "energywithstepsize ops kind sz self = Some (en, self')" by auto
    from a[OF this] that show False by auto
  qed
  from a c d show ?thesis by blast
qed

theorem energywithstepsize_restores_target_witness:
  "\<exists>self'. energywithstepsize
        \<lparr> po_totalenergy = (\<lambda>v. Some ((v ! 0)\<^sup>2)),
          po_totalforcewithconstraints = (\<lambda>v. Some ([2 * (v ! 0)], ())),
          po_initlocalconstraints = (\<lambda>v. Some ()),
          po_reprojectlocalconstraints = (\<lambda>lc v. Some v),
          po_reprojectconstraints = (\<lambda>lc v. Some v) \<rparr> ShapeOptimizer (1 / 4)
        \<lparr> heap = (\<lambda>r. [3]), heap_next = 1, target_ref = 0, force = Some [6],
          lcactive = None, stepsize = 0.1, steplimit = 0.5, energy = [], etol = 1 / 10 ^ 8,
          linmintol = 0.001, linminmax = 10 \<rparr> = Some (9 / 4, self')
     \<and> target_data self' = [3]"
proof -
  let ?ops = "\<lparr> po_totalenergy = (\<lambda>v. Some ((v ! 0)\<^sup>2)),
          po_totalforcewithconstraints = (\<lambda>v. Some ([2 * (v ! 0)], ())),
          po_initlocalconstraints = (\<lambda>v. Some ()),
          po_reprojectlocalconstraints = (\<lambda>lc v. Some v),
          po_reprojectconstraints = (\<lambda>lc v. Some v) \<rparr> :: unit problem_ops"
  let ?opt = "\<lparr> heap = (\<lambda>r. [3]), heap_next = 1, target_ref = 0, force = Some [6],
          lcactive = None, stepsize = 0.1, steplimit = 0.5, energy = [], etol = 1 / 10 ^ 8,
          linmintol = 0.001, linminmax = 10 \<rparr> :: unit optimizer"
  have h: "target_ref ?opt < heap_next ?opt" by simp
  have "energywithstepsize ?ops ShapeOptimizer (1 / 4) ?opt \<noteq> None"
    using energywithstepsize_restores_target[OF h, of ?ops ShapeOptimizer "1 / 4"]
    by (simp add: step_def vec_acc_def gettarget_def totalenergy_def target_data_def)
  then obtain en self' where
    r: "energywithstepsize ?ops ShapeOptimizer (1 / 4) ?opt = Some (en, self')"
    by auto
  with energywithstepsize_restores_target[OF h, of ?ops ShapeOptimizer "1 / 4"]
  have "target_data self' = target_data ?opt
      \<and> (\<exists>self2. step ?ops (1 / 4) ?opt = Some self2 \<and> totalenergy ?ops self2 = Some en)"
    by blast
  then have "target_data self' = [3] \<and> en = 9 / 4"
    by (auto simp: step_def vec_acc_def gettarget_def totalenergy_def target_data_def
          power2_eq_square)
  with r show ?thesis by blast
qed

subsection \<open>Bracketing the step size and the line search\<close>

lemma same_state_refl: "same_state a a"
  by (simp add: same_state_def)

lemma same_state_trans: "same_state a b \<Longrightarrow> same_state b c \<Longrightarrow> same_state a c"
  by (simp add: same_state_def)

lemma energywithstepsize_same:
  assumes "target_ref self < heap_next self"
    and "energywithstepsize ops kind sz self = Some (en, self')"
  shows "same_state self self'" and "heap_next self' = Suc (heap_next self)"
    and "target_ref self' < heap_next self'"
    and "energy_at ops (target_data self) (force self) sz = Some en"
  using energywithstepsize_Some[OF assms] by (simp_all add: same_state_def)

lemma energy_at_same:
  "same_state a b \<Longrightarrow> energy_at ops (target_data b) (force b) sz
                         = energy_at ops (target_data a) (force a) sz"
  by (simp add: same_state_def)

lemma dolinesearch_giveup:
  "bracketstepsize ops kind self = Some (None, self') \<Longrightarrow>
     dolinesearch ops kind self = Some (False, self')"
  by (simp add: dolinesearch_def)


lemma energywithstepsize_total:
  assumes "target_ref st < heap_next st"
    and "\<And>sz. energy_at ops (target_data st) (force st) sz = Some (E sz)"
  obtains st1 where "energywithstepsize ops kind sz st = Some (E sz, st1)"
    and "same_state st st1" and "heap_next st1 = Suc (heap_next st)"
    and "target_ref st1 < heap_next st1"
    and "\<And>sz. energy_at ops (target_data st1) (force st1) sz = Some (E sz)"
proof -
  from energywithstepsize_returns[OF assms(1) assms(2)[of sz], of kind]
  obtain st1 where f: "energywithstepsize ops kind sz st = Some (E sz, st1)" by blast
  note es = energywithstepsize_same[OF assms(1) f]
  have "energy_at ops (target_data st1) (force st1) z = Some (E z)" for z
    using assms(2)[of z] by (simp add: energy_at_same[OF es(1)])
  with f es show ?thesis using that by blast
qed

lemma bracket_loop_search:
  assumes "target_ref st < heap_next st" and "12 - iter = Suc m" 
    and "\<And>sz. energy_at ops (target_data st) (force st) sz = Some (E sz)"
  shows "\<exists>st'. bracket_loop (energywithstepsize ops kind) br iter st
                 = Some (fst (bracket_search E (Suc m) br), st')
           \<and> same_state st st' \<and> target_ref st' < heap_next st'
           \<and> heap_next st' = heap_next st + snd (bracket_search E (Suc m) br)"
  using assms
proof (induction m arbitrary: iter br st)
  case 0
  then have it: "iter = 11" by simp
  note bl = bracket_loop.simps[of "energywithstepsize ops kind" br iter st]
  show ?case
  proof (cases "bracketed br")
    case True
    then show ?thesis using "0.prems"(1) bl
      by (simp add: same_state_refl)
  next
    case nb: False
    show ?thesis
    proof (cases "bracket2 br < bracket1 br")
      case True
      from energywithstepsize_total[OF "0.prems"(1) "0.prems"(3), of kind "2 * s2 br"]
      obtain st1 where f: "energywithstepsize ops kind (2 * s2 br) st = Some (E (2 * s2 br), st1)"
        and s: "same_state st st1" "heap_next st1 = Suc (heap_next st)"
          "target_ref st1 < heap_next st1" by blast
      show ?thesis using nb True f s it bl
        by simp
    next
      case nx: False
      show ?thesis
      proof (cases "bracket1 br > bracket0 br")
        case True
        from energywithstepsize_total[OF "0.prems"(1) "0.prems"(3), of kind "s1 br / 2"]
        obtain st1 where f: "energywithstepsize ops kind (s1 br / 2) st = Some (E (s1 br / 2), st1)"
          and s: "same_state st st1" "heap_next st1 = Suc (heap_next st)"
            "target_ref st1 < heap_next st1" by blast
        show ?thesis using nb nx True f s it bl
          by simp
      next
        case False
        then show ?thesis using nb nx "0.prems"(1) bl
          by (simp add: same_state_refl)
      qed
    qed
  qed
next
  case (Suc m)
  then have it: "\<not> iter > 10" "12 - (iter + 1) = Suc m" by simp_all
  show ?case
  proof (cases "bracketed br")
    case True
    then show ?thesis using Suc.prems(1)
      by (simp add: bracket_loop.simps[of _ br iter st] same_state_refl)
  next
    case nb: False
    show ?thesis
    proof (cases "bracket2 br < bracket1 br")
      case True
      let ?br = "br\<lparr> s1 := s2 br, s2 := 2 * s2 br, bracket1 := bracket2 br,
                      bracket2 := E (2 * s2 br) \<rparr>"
      from energywithstepsize_total[OF Suc.prems(1) Suc.prems(3), of kind "2 * s2 br"]
      obtain st1 where f: "energywithstepsize ops kind (2 * s2 br) st = Some (E (2 * s2 br), st1)"
        and s: "same_state st st1" "heap_next st1 = Suc (heap_next st)"
          "target_ref st1 < heap_next st1"
        and e: "\<And>sz. energy_at ops (target_data st1) (force st1) sz = Some (E sz)" by blast
      from Suc.IH[OF s(3) it(2) e, of ?br]
      obtain st' where l: "bracket_loop (energywithstepsize ops kind) ?br (iter + 1) st1
                 = Some (fst (bracket_search E (Suc m) ?br), st')"
        and r: "same_state st1 st'" "target_ref st' < heap_next st'"
          "heap_next st' = heap_next st1 + snd (bracket_search E (Suc m) ?br)" by blast
      have "bracket_loop (energywithstepsize ops kind) br iter st
              = Some (fst (bracket_search E (Suc m) ?br), st')"
        using nb True f it(1) l by (simp add: bracket_loop.simps[of _ br iter st])
      moreover have "bracket_search E (Suc (Suc m)) br
              = (fst (bracket_search E (Suc m) ?br), Suc (snd (bracket_search E (Suc m) ?br)))"
        using nb True by (simp add: bracket_search.simps(2)[of E "Suc m" br] split: prod.splits
                            del: bracket_search.simps)
      moreover have "same_state st st'" using s(1) r(1) by (rule same_state_trans)
      ultimately show ?thesis using r(2,3) s(2) by simp
    next
      case nx: False
      show ?thesis
      proof (cases "bracket1 br > bracket0 br")
        case True
        let ?br = "br\<lparr> s1 := s1 br / 2, bracket1 := E (s1 br / 2) \<rparr>"
        from energywithstepsize_total[OF Suc.prems(1) Suc.prems(3), of kind "s1 br / 2"]
        obtain st1 where f: "energywithstepsize ops kind (s1 br / 2) st = Some (E (s1 br / 2), st1)"
          and s: "same_state st st1" "heap_next st1 = Suc (heap_next st)"
            "target_ref st1 < heap_next st1"
          and e: "\<And>sz. energy_at ops (target_data st1) (force st1) sz = Some (E sz)" by blast
        from Suc.IH[OF s(3) it(2) e, of ?br]
        obtain st' where l: "bracket_loop (energywithstepsize ops kind) ?br (iter + 1) st1
                   = Some (fst (bracket_search E (Suc m) ?br), st')"
          and r: "same_state st1 st'" "target_ref st' < heap_next st'"
            "heap_next st' = heap_next st1 + snd (bracket_search E (Suc m) ?br)" by blast
        have "bracket_loop (energywithstepsize ops kind) br iter st
                = Some (fst (bracket_search E (Suc m) ?br), st')"
          using nb nx True f it(1) l by (simp add: bracket_loop.simps[of _ br iter st])
        moreover have "bracket_search E (Suc (Suc m)) br
                = (fst (bracket_search E (Suc m) ?br), Suc (snd (bracket_search E (Suc m) ?br)))"
          using nb nx True by (simp add: bracket_search.simps(2)[of E "Suc m" br] split: prod.splits
                              del: bracket_search.simps)
        moreover have "same_state st st'" using s(1) r(1) by (rule same_state_trans)
        ultimately show ?thesis using r(2,3) s(2) by simp
      next
        case False
        then show ?thesis using nb nx Suc.prems(1)
          by (simp add: bracket_loop.simps[of _ br iter st] same_state_refl)
      qed
    qed
  qed
qed

lemma bracketstepsize_search:
  assumes wf: "target_ref self < heap_next self"
    and e0: "totalenergy ops self = Some e0"
    and E: "\<And>sz. energy_at ops (target_data self) (force self) sz = Some (E sz)"
  shows "\<exists>self'. bracketstepsize ops kind self
            = Some (fst (bracket_search E 12 (expanded E e0 (stepsize self) 0)), self')
         \<and> same_state self self'
         \<and> heap_next self' = heap_next self + 2
              + snd (bracket_search E 12 (expanded E e0 (stepsize self) 0))"
proof -
  from energywithstepsize_total[OF wf E, of kind "stepsize self"]
  obtain st1 where f1: "energywithstepsize ops kind (stepsize self) self = Some (E (stepsize self), st1)"
    and s1: "same_state self st1" "heap_next st1 = Suc (heap_next self)"
      "target_ref st1 < heap_next st1"
    and E1: "\<And>sz. energy_at ops (target_data st1) (force st1) sz = Some (E sz)" by blast
  from energywithstepsize_total[OF s1(3) E1, of kind "2 * stepsize self"]
  obtain st2 where f2: "energywithstepsize ops kind (2 * stepsize self) st1
                          = Some (E (2 * stepsize self), st2)"
    and s2: "same_state st1 st2" "heap_next st2 = Suc (heap_next st1)"
      "target_ref st2 < heap_next st2"
    and E2: "\<And>sz. energy_at ops (target_data st2) (force st2) sz = Some (E sz)" by blast
  have i: "expanded E e0 (stepsize self) 0
         = \<lparr> s0 = 0, s1 = stepsize self, s2 = 2 * stepsize self,
             bracket0 = e0, bracket1 = E (stepsize self), bracket2 = E (2 * stepsize self) \<rparr>"
    by (simp add: expanded_def)
  have m: "12 - (0::nat) = Suc 11" by simp
  from bracket_loop_search[OF s2(3) m E2, of kind "expanded E e0 (stepsize self) 0"]
  obtain st' where l: "bracket_loop (energywithstepsize ops kind) (expanded E e0 (stepsize self) 0) 0 st2
                 = Some (fst (bracket_search E (Suc 11) (expanded E e0 (stepsize self) 0)), st')"
    and r: "same_state st2 st'"
      "heap_next st' = heap_next st2 + snd (bracket_search E (Suc 11) (expanded E e0 (stepsize self) 0))"
    by blast
  have n: "Suc 11 = (12::nat)" by simp
  have "bracketstepsize ops kind self
            = Some (fst (bracket_search E 12 (expanded E e0 (stepsize self) 0)), st')"
    using e0 f1 f2 l[unfolded n] unfolding i by (simp add: bracketstepsize_def)
  moreover have "same_state self st'"
    using s1(1) s2(1) r(1) same_state_trans by blast
  ultimately show ?thesis using r(2)[unfolded n] s1(2) s2(2) by simp
qed

lemma search_bracketed: "bracketed br \<Longrightarrow> bracket_search E (Suc n) br = (Some br, 0)"
  by simp

lemma search_passes: "snd (bracket_search E n br) \<le> n"
proof (induction n arbitrary: br)
  case 0
  show ?case by simp
next
  case (Suc n)
  show ?case
    using Suc[of "br\<lparr> s1 := s2 br, s2 := 2 * s2 br, bracket1 := bracket2 br,
                      bracket2 := E (2 * s2 br) \<rparr>"]
      Suc[of "br\<lparr> s1 := s1 br / 2, bracket1 := E (s1 br / 2) \<rparr>"]
    by (auto split: prod.splits)
qed

lemma search_energies:
  assumes "fst (bracket_search E n br) = Some b"
    and "bracket1 br = E (s1 br)" and "bracket2 br = E (s2 br)"
  shows "bracketed b \<and> s0 b = s0 br \<and> bracket0 b = bracket0 br
       \<and> bracket1 b = E (s1 b) \<and> bracket2 b = E (s2 b)"
  using assms
proof (induction n arbitrary: br)
  case 0
  then show ?case by simp
next
  case (Suc n)
  show ?case
  proof (cases "bracketed br")
    case True
    with Suc.prems show ?thesis by simp
  next
    case nb: False
    show ?thesis
    proof (cases "bracket2 br < bracket1 br")
      case True
      let ?br = "br\<lparr> s1 := s2 br, s2 := 2 * s2 br, bracket1 := bracket2 br,
                      bracket2 := E (2 * s2 br) \<rparr>"
      from Suc.prems(1) nb True have "fst (bracket_search E n ?br) = Some b"
        by (simp split: prod.splits)
      from Suc.IH[OF this] Suc.prems(3) show ?thesis by simp
    next
      case nx: False
      show ?thesis
      proof (cases "bracket1 br > bracket0 br")
        case True
        let ?br = "br\<lparr> s1 := s1 br / 2, bracket1 := E (s1 br / 2) \<rparr>"
        from Suc.prems(1) nb nx True have "fst (bracket_search E n ?br) = Some b"
          by (simp split: prod.splits)
        from Suc.IH[OF this] Suc.prems(3) show ?thesis by simp
      next
        case False
        with Suc.prems(1) nb nx show ?thesis by simp
      qed
    qed
  qed
qed

lemma expanded_step:
  "(expanded E e0 s i)\<lparr> s1 := s2 (expanded E e0 s i), s2 := 2 * s2 (expanded E e0 s i),
       bracket1 := bracket2 (expanded E e0 s i),
       bracket2 := E (2 * s2 (expanded E e0 s i)) \<rparr> = expanded E e0 s (Suc i)"
  by (simp add: expanded_def mult.assoc)

lemma contracted_step:
  "(contracted E e0 s i)\<lparr> s1 := s1 (contracted E e0 s i) / 2,
       bracket1 := E (s1 (contracted E e0 s i) / 2) \<rparr> = contracted E e0 s (Suc i)"
proof -
  have "2 ^ i * 2 = (2::real) * 2 ^ i" by (rule mult.commute)
  then have "s / (2 ^ i * 2) = s / (2 * 2 ^ i)" by (rule arg_cong)
  then have "E (s / (2 ^ i * 2)) = E (s / (2 * 2 ^ i))" by (rule arg_cong)
  then show ?thesis unfolding contracted_def by simp
qed

lemma search_expand_run:
  assumes "\<And>j. i \<le> j \<Longrightarrow> j < i + k \<Longrightarrow> E (2 ^ (j + 1) * s) < E (2 ^ j * s)"
  shows "bracket_search E (k + m) (expanded E e0 s i)
         = (fst (bracket_search E m (expanded E e0 s (i + k))),
            k + snd (bracket_search E m (expanded E e0 s (i + k))))"
  using assms
proof (induction k arbitrary: i)
  case 0
  show ?case by simp
next
  case (Suc k)
  have lt: "bracket2 (expanded E e0 s i) < bracket1 (expanded E e0 s i)"
    using Suc.prems[of i] by (simp add: expanded_def)
  then have nb: "\<not> bracketed (expanded E e0 s i)" by (simp add: bracketed_def)
  have ih: "bracket_search E (k + m) (expanded E e0 s (Suc i))
         = (fst (bracket_search E m (expanded E e0 s (Suc i + k))),
            k + snd (bracket_search E m (expanded E e0 s (Suc i + k))))"
    by (rule Suc.IH) (use Suc.prems in simp)
  have "bracket_search E (Suc (k + m)) (expanded E e0 s i)
        = (case bracket_search E (k + m) (expanded E e0 s (Suc i)) of (r, c) \<Rightarrow> (r, Suc c))"
    using nb lt unfolding bracket_search.simps(2)[of E "k + m" "expanded E e0 s i"] expanded_step
    by simp
  then show ?case unfolding ih by simp
qed

lemma search_contract_run:
  assumes "\<And>j. i \<le> j \<Longrightarrow> j < i + k \<Longrightarrow> e0 < E (s / 2 ^ j) \<and> E (s / 2 ^ j) \<le> E (2 * s)"
  shows "bracket_search E (k + m) (contracted E e0 s i)
         = (fst (bracket_search E m (contracted E e0 s (i + k))),
            k + snd (bracket_search E m (contracted E e0 s (i + k))))"
  using assms
proof (induction k arbitrary: i)
  case 0
  show ?case by simp
next
  case (Suc k)
  have c: "\<not> bracket2 (contracted E e0 s i) < bracket1 (contracted E e0 s i)"
    "bracket1 (contracted E e0 s i) > bracket0 (contracted E e0 s i)"
    using Suc.prems[of i] by (simp_all add: contracted_def)
  then have nb: "\<not> bracketed (contracted E e0 s i)" by (simp add: bracketed_def)
  have ih: "bracket_search E (k + m) (contracted E e0 s (Suc i))
         = (fst (bracket_search E m (contracted E e0 s (Suc i + k))),
            k + snd (bracket_search E m (contracted E e0 s (Suc i + k))))"
    by (rule Suc.IH) (use Suc.prems in simp)
  have "bracket_search E (Suc (k + m)) (contracted E e0 s i)
        = (case bracket_search E (k + m) (contracted E e0 s (Suc i)) of (r, c) \<Rightarrow> (r, Suc c))"
    using nb c unfolding bracket_search.simps(2)[of E "k + m" "contracted E e0 s i"] contracted_step
    by simp
  then show ?case unfolding ih by simp
qed

lemma contracted_0: "contracted E e0 s 0 = expanded E e0 s 0"
  by (simp add: contracted_def expanded_def)

lemma search_expand_found:
  assumes "k \<le> 11" and "\<And>j. j < k \<Longrightarrow> E (2 ^ (j + 1) * s) < E (2 ^ j * s)"
    and "E (2 ^ k * s) < e0" and "E (2 ^ k * s) < E (2 ^ (k + 1) * s)"
  shows "bracket_search E 12 (expanded E e0 s 0) = (Some (expanded E e0 s k), k)"
proof -
  define m where "m = 11 - k"
  from assms(1) have m: "12 = k + Suc m" by (simp add: m_def)
  have b: "bracketed (expanded E e0 s k)" using assms(3,4) by (simp add: bracketed_def expanded_def)
  show ?thesis
    unfolding m using search_expand_run[of 0 k E s "Suc m" e0] assms(2) search_bracketed[OF b, of E m]
    by simp
qed

lemma search_expand_giveup:
  assumes "\<And>j. j < 12 \<Longrightarrow> E (2 ^ (j + 1) * s) < E (2 ^ j * s)"
  shows "bracket_search E 12 (expanded E e0 s 0) = (None, 12)"
  using search_expand_run[of 0 12 E s 0 e0] assms by simp

lemma search_contract_found:
  assumes "k \<le> 11"
    and "\<And>j. j < k \<Longrightarrow> e0 < E (s / 2 ^ j) \<and> E (s / 2 ^ j) \<le> E (2 * s)"
    and "E (s / 2 ^ k) < e0" and "E (s / 2 ^ k) < E (2 * s)"
  shows "bracket_search E 12 (expanded E e0 s 0) = (Some (contracted E e0 s k), k)"
proof -
  define m where "m = 11 - k"
  from assms(1) have m: "12 = k + Suc m" by (simp add: m_def)
  have b: "bracketed (contracted E e0 s k)"
    using assms(3,4) by (simp add: bracketed_def contracted_def)
  show ?thesis
    unfolding m contracted_0[symmetric]
    using search_contract_run[of 0 k e0 E s "Suc m"] assms(2) search_bracketed[OF b, of E m]
    by simp
qed

lemma search_contract_giveup:
  assumes "\<And>j. j < 12 \<Longrightarrow> e0 < E (s / 2 ^ j) \<and> E (s / 2 ^ j) \<le> E (2 * s)"
  shows "bracket_search E 12 (expanded E e0 s 0) = (None, 12)"
  unfolding contracted_0[symmetric]
  using search_contract_run[of 0 12 e0 E s 0] assms by simp

lemma search_unresolved:
  assumes "\<not> (E s < e0 \<and> E s < E (2 * s))" and "\<not> E (2 * s) < E s" and "\<not> E s > e0"
  shows "bracket_search E 12 (expanded E e0 s 0) = (None, 0)"
proof -
  have "bracket_search E (Suc 11) (expanded E e0 s 0) = (None, 0)"
    unfolding bracket_search.simps(2) using assms by (simp add: expanded_def bracketed_def)
  then show ?thesis by simp
qed

lemma linesearch_loop_giveup:
  assumes wf: "target_ref self < heap_next self"
    and f: "po_totalforcewithconstraints ops (target_data self) = Some (f, lc)"
    and e0: "totalenergy ops self = Some e0"
    and E: "\<And>sz. energy_at ops (target_data self) (Some f) sz = Some (E sz)"
    and g: "fst (bracket_search E 12 (expanded E e0 (stepsize self) 0)) = None"
  shows "\<exists>self'. linesearch_loop ops kind (Suc n) self = Some self'
           \<and> target_data self' = target_data self \<and> stepsize self' = stepsize self
           \<and> energy self' = energy self"
proof -
  let ?s = "self\<lparr> force := Some f, lcactive := Some lc \<rparr>"
  have al: "target_ref ?s < heap_next ?s" using wf by simp
  have td: "target_data ?s = target_data self" by (simp add: target_data_def)
  have te: "totalenergy ops ?s = Some e0" using e0 by (simp add: totalenergy_def td)
  have Es: "energy_at ops (target_data ?s) (force ?s) sz = Some (E sz)" for sz
    using E[of sz] by (simp add: td)
  from bracketstepsize_search[OF al te Es, of kind] g
  obtain self' where b: "bracketstepsize ops kind ?s = Some (None, self')"
    and s: "same_state ?s self'" by auto
  have "linesearch_loop ops kind (Suc n) self = Some self'"
    using f b by (simp add: dolinesearch_giveup)
  with s show ?thesis by (auto simp: same_state_def td)
qed

text \<open>
  C6, as stated, at a concrete input: a shape optimizer with a single coordinate at 0, the
  force -1, the step size 1 and the energy (x - 2000) squared. After k passes of the loop
  the step sizes are 0, 2 to the k, 2 to the k+1, and for k = 0, ..., 10 the energies do not
  form a bracket:
  none is found within 10 passes. The loop does not give up: it makes an 11th pass and
  returns the bracket with the step sizes 0, 2048, 4096, after 13 evaluations of the energy
  (the next free address of the store has moved from 1 to 14).
\<close>

theorem bracketstepsize_eleventh_pass_counterexample:
  "list_all (\<lambda>k. \<not> bracketed \<lparr> s0 = 0, s1 = 2 ^ k, s2 = 2 ^ (k + 1), bracket0 = (0 - 2000)\<^sup>2,
                                 bracket1 = (2 ^ k - 2000)\<^sup>2,
                                 bracket2 = (2 ^ (k + 1) - 2000)\<^sup>2 \<rparr>)
      [0, 1, 2, 3, 4, 5, 6, 7, 8, 9, 10]
   \<and> map_option (\<lambda>rs. (fst rs, heap_next (snd rs)))
      (bracketstepsize
         \<lparr> po_totalenergy = (\<lambda>v. Some ((v ! 0 - 2000)\<^sup>2)),
           po_totalforcewithconstraints = (\<lambda>v. Some ([- 1], ())),
           po_initlocalconstraints = (\<lambda>v. Some ()),
           po_reprojectlocalconstraints = (\<lambda>lc v. Some v),
           po_reprojectconstraints = (\<lambda>lc v. Some v) \<rparr> ShapeOptimizer
         \<lparr> heap = (\<lambda>r. [0]), heap_next = 1, target_ref = 0, force = Some [- 1],
           lcactive = None, stepsize = 1, steplimit = 0.5, energy = [], etol = 1 / 10 ^ 8,
           linmintol = 0.001, linminmax = 10 \<rparr>)
     = Some (Some \<lparr> s0 = 0, s1 = 2048, s2 = 4096, bracket0 = 4000000, bracket1 = 2304,
                     bracket2 = 4393216 \<rparr>, 14)"
  by (simp add: bracketstepsize_def bracket_loop.simps energywithstepsize_def totalenergy_def
        target_data_def clone_def gettarget_def settarget_def step_def vec_acc_def bracketed_def
        power2_eq_square)

text \<open>
  C6, amended. Let the force be computed in a pass of the loop of \<open>linesearch\<close>, let the
  total energy be \<open>e0\<close> and let the energy after a step of any size \<open>sz\<close> be defined,
  \<open>E sz\<close>. Then \<open>bracketstepsize\<close> returns without an error, and it leaves the data of
  the target, the step size and the energy history as they were. What it returns is the
  result of the search from the step sizes 0, \<open>stepsize\<close>, 2 \<open>stepsize\<close> with the energies
  \<open>e0\<close>, \<open>E stepsize\<close>, \<open>E (2 stepsize)\<close> that expands or contracts until E(s1) < E(s0)
  and E(s1) < E(s2), with 12 passes at most; the number of trial energies evaluated is 2
  plus the number of passes, so at most 14. In particular:
  \<^item> a bracket that is returned has s0 = 0, the energies \<open>e0\<close>, \<open>E s1\<close>, \<open>E s2\<close>, and
    E(s1) < E(s0), E(s1) < E(s2);
  \<^item> while the energy at the doubled step size is lower, the step sizes are doubled, and
    a bracket reached after \<open>k\<close> doublings is returned for every \<open>k\<close> up to 11;
  \<^item> while the energy at s1 exceeds \<open>e0\<close> and does not exceed that at s2, s1 is halved,
    and a bracket reached after \<open>k\<close> halvings is returned for every \<open>k\<close> up to 11;
  \<^item> after 12 doublings, or 12 halvings, \<open>bracketstepsize\<close> gives up and returns \<open>nil\<close>;
  \<^item> it gives up at once, with \<open>nil\<close>, when the first triple is no bracket and neither
    E(s2) < E(s1) nor E(s1) > E(s0) holds;
  \<^item> whenever it gives up, \<open>linesearch\<close> leaves its loop and returns the energy
    history, which is the one it started with, or the total energy alone if it was
    empty; the data of the target and the step size are unchanged.
\<close>

theorem bracketstepsize_search_and_linesearch_exit:
  assumes "target_ref self < heap_next self"
    and "po_totalforcewithconstraints ops (target_data self) = Some (f, lc)"
    and "totalenergy ops self = Some e0"
    and "\<forall>sz. energy_at ops (target_data self) (Some f) sz = Some (E sz)"
  shows "\<exists>res self'.
      bracketstepsize ops kind (self\<lparr> force := Some f, lcactive := Some lc \<rparr>) = Some (res, self')
    \<and> target_data self' = target_data self \<and> stepsize self' = stepsize self
    \<and> energy self' = energy self
    \<and> bracket_search E 12
         \<lparr> s0 = 0, s1 = stepsize self, s2 = 2 * stepsize self, bracket0 = e0,
           bracket1 = E (stepsize self), bracket2 = E (2 * stepsize self) \<rparr>
        = (res, heap_next self' - (heap_next self + 2))
    \<and> heap_next self + 2 \<le> heap_next self' \<and> heap_next self' \<le> heap_next self + 14
    \<and> (\<forall>b. res = Some b \<longrightarrow>
          s0 b = 0 \<and> bracket0 b = e0 \<and> bracket1 b = E (s1 b) \<and> bracket2 b = E (s2 b)
          \<and> bracket1 b < bracket0 b \<and> bracket1 b < bracket2 b)
    \<and> (\<forall>k \<le> 11. (\<forall>j < k. E (2 ^ (j + 1) * stepsize self) < E (2 ^ j * stepsize self))
          \<and> E (2 ^ k * stepsize self) < e0
          \<and> E (2 ^ k * stepsize self) < E (2 ^ (k + 1) * stepsize self) \<longrightarrow>
          res = Some \<lparr> s0 = 0, s1 = 2 ^ k * stepsize self, s2 = 2 ^ (k + 1) * stepsize self,
                       bracket0 = e0, bracket1 = E (2 ^ k * stepsize self),
                       bracket2 = E (2 ^ (k + 1) * stepsize self) \<rparr>
          \<and> heap_next self' = heap_next self + 2 + k)
    \<and> (\<forall>k \<le> 11. (\<forall>j < k. e0 < E (stepsize self / 2 ^ j)
                        \<and> E (stepsize self / 2 ^ j) \<le> E (2 * stepsize self))
          \<and> E (stepsize self / 2 ^ k) < e0
          \<and> E (stepsize self / 2 ^ k) < E (2 * stepsize self) \<longrightarrow>
          res = Some \<lparr> s0 = 0, s1 = stepsize self / 2 ^ k, s2 = 2 * stepsize self,
                       bracket0 = e0, bracket1 = E (stepsize self / 2 ^ k),
                       bracket2 = E (2 * stepsize self) \<rparr>
          \<and> heap_next self' = heap_next self + 2 + k)
    \<and> ((\<forall>j < 12. E (2 ^ (j + 1) * stepsize self) < E (2 ^ j * stepsize self)) \<longrightarrow>
          res = None \<and> heap_next self' = heap_next self + 14)
    \<and> ((\<forall>j < 12. e0 < E (stepsize self / 2 ^ j)
                    \<and> E (stepsize self / 2 ^ j) \<le> E (2 * stepsize self)) \<longrightarrow>
          res = None \<and> heap_next self' = heap_next self + 14)
    \<and> (\<not> (E (stepsize self) < e0 \<and> E (stepsize self) < E (2 * stepsize self))
        \<and> \<not> E (2 * stepsize self) < E (stepsize self) \<and> \<not> E (stepsize self) > e0 \<longrightarrow>
          res = None \<and> heap_next self' = heap_next self + 2)
    \<and> (res = None \<longrightarrow>
          (\<exists>self''. linesearch ops kind (Suc n) self
                       = Some (if energy self = [] then [e0] else energy self, self'')
             \<and> target_data self'' = target_data self \<and> stepsize self'' = stepsize self
             \<and> energy self'' = (if energy self = [] then [e0] else energy self)))"
proof -
  let ?s = "self\<lparr> force := Some f, lcactive := Some lc \<rparr>"
  let ?sz = "stepsize self"
  let ?init = "expanded E e0 ?sz 0"
  have init: "?init = \<lparr> s0 = 0, s1 = ?sz, s2 = 2 * ?sz, bracket0 = e0,
                         bracket1 = E ?sz, bracket2 = E (2 * ?sz) \<rparr>"
    by (simp add: expanded_def)
  have al: "target_ref ?s < heap_next ?s" using assms(1) by simp
  have td: "target_data ?s = target_data self" by (simp add: target_data_def)
  have te: "totalenergy ops ?s = Some e0" using assms(3) by (simp add: totalenergy_def td)
  have Es: "energy_at ops (target_data ?s) (force ?s) sz = Some (E sz)" for sz
    using assms(4) by (simp add: td)
  from bracketstepsize_search[OF al te Es, of kind]
  obtain self' where b: "bracketstepsize ops kind ?s = Some (fst (bracket_search E 12 ?init), self')"
    and s: "same_state ?s self'"
    and h: "heap_next self' = heap_next self + 2 + snd (bracket_search E 12 ?init)"
    by auto
  define res where "res = fst (bracket_search E 12 ?init)"
  have sr: "bracket_search E 12 ?init = (res, heap_next self' - (heap_next self + 2))"
    using h by (simp add: res_def)
  have c1: "target_data self' = target_data self" "stepsize self' = stepsize self"
    "energy self' = energy self"
    using s by (simp_all add: same_state_def td)
  have c2: "heap_next self + 2 \<le> heap_next self'" "heap_next self' \<le> heap_next self + 14"
    using h search_passes[of E 12 ?init] by simp_all
  have c3: "s0 b = 0 \<and> bracket0 b = e0 \<and> bracket1 b = E (s1 b) \<and> bracket2 b = E (s2 b)
          \<and> bracket1 b < bracket0 b \<and> bracket1 b < bracket2 b" if "res = Some b" for b
    using search_energies[of E 12 ?init b] that
    by (simp add: res_def expanded_def bracketed_def)
  have c4: "res = Some \<lparr> s0 = 0, s1 = 2 ^ k * ?sz, s2 = 2 ^ (k + 1) * ?sz,
                       bracket0 = e0, bracket1 = E (2 ^ k * ?sz),
                       bracket2 = E (2 ^ (k + 1) * ?sz) \<rparr>
          \<and> heap_next self' = heap_next self + 2 + k"
    if "k \<le> 11" "\<forall>j < k. E (2 ^ (j + 1) * ?sz) < E (2 ^ j * ?sz)"
       "E (2 ^ k * ?sz) < e0" "E (2 ^ k * ?sz) < E (2 ^ (k + 1) * ?sz)" for k
  proof -
    have "bracket_search E 12 ?init = (Some (expanded E e0 ?sz k), k)"
      by (rule search_expand_found) (use that in simp_all)
    then show ?thesis using h by (simp add: res_def expanded_def)
  qed
  have c5: "res = Some \<lparr> s0 = 0, s1 = ?sz / 2 ^ k, s2 = 2 * ?sz,
                       bracket0 = e0, bracket1 = E (?sz / 2 ^ k), bracket2 = E (2 * ?sz) \<rparr>
          \<and> heap_next self' = heap_next self + 2 + k"
    if "k \<le> 11" "\<forall>j < k. e0 < E (?sz / 2 ^ j) \<and> E (?sz / 2 ^ j) \<le> E (2 * ?sz)"
       "E (?sz / 2 ^ k) < e0" "E (?sz / 2 ^ k) < E (2 * ?sz)" for k
  proof -
    have "bracket_search E 12 ?init = (Some (contracted E e0 ?sz k), k)"
      by (rule search_contract_found) (use that in simp_all)
    then show ?thesis using h by (simp add: res_def contracted_def)
  qed
  have c6: "res = None \<and> heap_next self' = heap_next self + 14"
    if "\<forall>j < 12. E (2 ^ (j + 1) * ?sz) < E (2 ^ j * ?sz)"
  proof -
    have "bracket_search E 12 ?init = (None, 12)"
      by (rule search_expand_giveup) (use that in simp)
    then show ?thesis using h by (simp add: res_def)
  qed
  have c7: "res = None \<and> heap_next self' = heap_next self + 14"
    if "\<forall>j < 12. e0 < E (?sz / 2 ^ j) \<and> E (?sz / 2 ^ j) \<le> E (2 * ?sz)"
  proof -
    have "bracket_search E 12 ?init = (None, 12)"
      by (rule search_contract_giveup) (use that in simp)
    then show ?thesis using h by (simp add: res_def)
  qed
  have c8: "res = None \<and> heap_next self' = heap_next self + 2"
    if "\<not> (E ?sz < e0 \<and> E ?sz < E (2 * ?sz)) \<and> \<not> E (2 * ?sz) < E ?sz \<and> \<not> E ?sz > e0"
  proof -
    have "bracket_search E 12 ?init = (None, 0)"
      by (rule search_unresolved) (use that in simp_all)
    then show ?thesis using h by (simp add: res_def)
  qed
  have c9: "\<exists>self''. linesearch ops kind (Suc n) self
                       = Some (if energy self = [] then [e0] else energy self, self'')
             \<and> target_data self'' = target_data self \<and> stepsize self'' = stepsize self
             \<and> energy self'' = (if energy self = [] then [e0] else energy self)"
    if "res = None"
  proof -
    let ?s0 = "if energy self = [] then self\<lparr> energy := energy self @ [e0] \<rparr> else self"
    have a0: "target_ref ?s0 < heap_next ?s0" using assms(1) by simp
    have t0: "target_data ?s0 = target_data self" by (simp add: target_data_def)
    have f0: "po_totalforcewithconstraints ops (target_data ?s0) = Some (f, lc)"
      using assms(2) by (simp only: t0)
    have e0': "totalenergy ops ?s0 = Some e0"
      using assms(3) by (simp only: totalenergy_def t0)
    have E0: "energy_at ops (target_data ?s0) (Some f) sz = Some (E sz)" for sz
      using assms(4) by (simp only: t0)
    have g0: "fst (bracket_search E 12 (expanded E e0 (stepsize ?s0) 0)) = None"
      using that by (simp add: res_def)
    from linesearch_loop_giveup[OF a0 f0 e0' E0 g0, of kind n]
    obtain self'' where l: "linesearch_loop ops kind (Suc n) ?s0 = Some self''"
      and r: "target_data self'' = target_data ?s0" "stepsize self'' = stepsize ?s0"
        "energy self'' = energy ?s0" by blast
    have "linesearch ops kind (Suc n) self = Some (energy self'', self'')"
    proof (cases "energy self = []")
      case True
      with l assms(3) show ?thesis by (simp add: linesearch_def del: linesearch_loop.simps)
    next
      case False
      with l show ?thesis by (simp add: linesearch_def del: linesearch_loop.simps)
    qed
    with r t0 show ?thesis by (auto simp del: linesearch_loop.simps)
  qed
  have b': "bracketstepsize ops kind ?s = Some (res, self')" using b by (simp add: res_def)
  from b' c1 sr[unfolded init] c2 c3 c4 c5 c6 c7 c8 c9 show ?thesis
    by blast
qed

theorem bracketstepsize_search_and_linesearch_exit_witness:
  "(\<exists>self'. bracketstepsize
        \<lparr> po_totalenergy = (\<lambda>v. Some ((v ! 0 - 3 / 10)\<^sup>2)),
          po_totalforcewithconstraints = (\<lambda>v. Some ([- 1], ())),
          po_initlocalconstraints = (\<lambda>v. Some ()),
          po_reprojectlocalconstraints = (\<lambda>lc v. Some v),
          po_reprojectconstraints = (\<lambda>lc v. Some v) \<rparr> ShapeOptimizer
        \<lparr> heap = (\<lambda>r. [0]), heap_next = 1, target_ref = 0, force = Some [- 1],
          lcactive = Some (), stepsize = 1, steplimit = 0.5, energy = [], etol = 1 / 10 ^ 8,
          linmintol = 0.001, linminmax = 10 \<rparr>
      = Some (Some \<lparr> s0 = 0, s1 = 1 / 2, s2 = 2, bracket0 = 9 / 100, bracket1 = 4 / 100,
                      bracket2 = 289 / 100 \<rparr>, self')
      \<and> heap_next self' = 4)
   \<and> (\<exists>self'. linesearch
        \<lparr> po_totalenergy = (\<lambda>v. Some ((v ! 0 - 10000)\<^sup>2)),
          po_totalforcewithconstraints = (\<lambda>v. Some ([- 1], ())),
          po_initlocalconstraints = (\<lambda>v. Some ()),
          po_reprojectlocalconstraints = (\<lambda>lc v. Some v),
          po_reprojectconstraints = (\<lambda>lc v. Some v) \<rparr> ShapeOptimizer (Suc 4)
        \<lparr> heap = (\<lambda>r. [0]), heap_next = 1, target_ref = 0, force = None,
          lcactive = None, stepsize = 1, steplimit = 0.5, energy = [], etol = 1 / 10 ^ 8,
          linmintol = 0.001, linminmax = 10 \<rparr>
      = Some ([100000000], self')
      \<and> target_data self' = [0] \<and> stepsize self' = 1)"
proof -
  let ?ops = "\<lambda>c. \<lparr> po_totalenergy = (\<lambda>v. Some ((v ! 0 - c)\<^sup>2)),
          po_totalforcewithconstraints = (\<lambda>v. Some ([- 1], ())),
          po_initlocalconstraints = (\<lambda>v. Some ()),
          po_reprojectlocalconstraints = (\<lambda>lc v. Some v),
          po_reprojectconstraints = (\<lambda>lc v. Some v) \<rparr> :: unit problem_ops"
  let ?opt = "\<lparr> heap = (\<lambda>r. [0]), heap_next = 1, target_ref = 0, force = None,
          lcactive = None, stepsize = 1, steplimit = 0.5, energy = [], etol = 1 / 10 ^ 8,
          linmintol = 0.001, linminmax = 10 \<rparr> :: unit optimizer"
  have h1: "target_ref ?opt < heap_next ?opt" by simp
  have h2: "po_totalforcewithconstraints (?ops c) (target_data ?opt) = Some ([- 1], ())" for c
    by simp
  have h3: "totalenergy (?ops c) ?opt = Some (c\<^sup>2)" for c
    by (simp add: totalenergy_def target_data_def)
  have h4: "\<forall>sz. energy_at (?ops c) (target_data ?opt) (Some [- 1]) sz = Some ((sz - c)\<^sup>2)" for c
    by (simp add: energy_at_def stepped_data_def vec_acc_def target_data_def)
  have a: "\<exists>self'. bracketstepsize (?ops (3 / 10)) ShapeOptimizer
             (?opt\<lparr> force := Some [- 1], lcactive := Some () \<rparr>)
      = Some (Some \<lparr> s0 = 0, s1 = 1 / 2, s2 = 2, bracket0 = 9 / 100, bracket1 = 4 / 100,
                      bracket2 = 289 / 100 \<rparr>, self')
      \<and> heap_next self' = 4"
  proof -
    from bracketstepsize_search_and_linesearch_exit[OF h1 h2 h3 h4, of "3 / 10" ShapeOptimizer 4]
    obtain res self' where
      b: "bracketstepsize (?ops (3 / 10)) ShapeOptimizer
             (?opt\<lparr> force := Some [- 1], lcactive := Some () \<rparr>) = Some (res, self')"
      and c: "\<forall>k \<le> 11. (\<forall>j < k. (3 / 10)\<^sup>2 < (stepsize ?opt / 2 ^ j - 3 / 10)\<^sup>2
                        \<and> (stepsize ?opt / 2 ^ j - 3 / 10)\<^sup>2 \<le> (2 * stepsize ?opt - 3 / 10)\<^sup>2)
          \<and> (stepsize ?opt / 2 ^ k - 3 / 10)\<^sup>2 < (3 / 10)\<^sup>2
          \<and> (stepsize ?opt / 2 ^ k - 3 / 10)\<^sup>2 < (2 * stepsize ?opt - 3 / 10)\<^sup>2 \<longrightarrow>
          res = Some \<lparr> s0 = 0, s1 = stepsize ?opt / 2 ^ k, s2 = 2 * stepsize ?opt,
                       bracket0 = (3 / 10)\<^sup>2, bracket1 = (stepsize ?opt / 2 ^ k - 3 / 10)\<^sup>2,
                       bracket2 = (2 * stepsize ?opt - 3 / 10)\<^sup>2 \<rparr>
          \<and> heap_next self' = heap_next ?opt + 2 + k"
      by (elim exE conjE) (rule that; assumption)
    from c[rule_format, of 1] have "res = Some \<lparr> s0 = 0, s1 = 1 / 2, s2 = 2, bracket0 = 9 / 100,
         bracket1 = 4 / 100, bracket2 = 289 / 100 \<rparr> \<and> heap_next self' = 4"
      by (simp add: power2_eq_square)
    with b show ?thesis by auto
  qed
  have d: "(2 ^ (j + 1) * 1 - 10000 :: real)\<^sup>2 < (2 ^ j * 1 - 10000)\<^sup>2" if "j < 12" for j :: nat
  proof -
    have "(2::real) ^ j \<le> 2 ^ 11" using that by (intro power_increasing) simp_all
    then have le: "(2::real) ^ j \<le> 2048" by simp
    have pos: "(0::real) < 2 ^ j" by simp
    have "(10000 - 2 * 2 ^ j :: real)\<^sup>2 < (10000 - 2 ^ j)\<^sup>2"
      by (rule power_strict_mono) (use le pos in simp_all)
    then show ?thesis by (simp add: power2_commute)
  qed
  have e: "\<exists>self'. linesearch (?ops 10000) ShapeOptimizer (Suc 4) ?opt = Some ([100000000], self')
      \<and> target_data self' = [0] \<and> stepsize self' = 1"
  proof -
    from bracketstepsize_search_and_linesearch_exit[OF h1 h2 h3 h4, of 10000 ShapeOptimizer 4]
    obtain res :: "stepbracket option" and self' :: "unit optimizer" where
      g: "(\<forall>j < 12. (2 ^ (j + 1) * stepsize ?opt - 10000)\<^sup>2 < (2 ^ j * stepsize ?opt - 10000)\<^sup>2)
            \<longrightarrow> res = None \<and> heap_next self' = heap_next ?opt + 14"
      and l: "res = None \<longrightarrow>
          (\<exists>self''. linesearch (?ops 10000) ShapeOptimizer (Suc 4) ?opt
                       = Some (if energy ?opt = [] then [10000\<^sup>2] else energy ?opt, self'')
             \<and> target_data self'' = target_data ?opt \<and> stepsize self'' = stepsize ?opt
             \<and> energy self'' = (if energy ?opt = [] then [10000\<^sup>2] else energy ?opt))"
      by (elim exE conjE) (rule that; assumption)
    from g d have "res = None" by simp
    with l show ?thesis by (auto simp: target_data_def simp del: linesearch_loop.simps)
  qed
  from a e show ?thesis by simp
qed

subsection \<open>Brent's minimizer\<close>

lemma brent_q_nonneg: "brent_q bs \<ge> 0"
  by (simp add: brent_q_def Let_def)

lemma brent_fit_good_iff:
  "\<not> brent_fit_bad bs \<longleftrightarrow>
     \<bar>brent_p bs\<bar> < \<bar>0.5 * brent_q bs * br_e bs\<bar>
     \<and> br_a bs - br_x bs < brent_p bs / brent_q bs
     \<and> brent_p bs / brent_q bs < br_b bs - br_x bs"
proof (cases "brent_q bs = 0")
  case True
  then show ?thesis by (simp add: brent_fit_bad_def)
next
  case False
  with brent_q_nonneg[of bs] have q: "brent_q bs > 0" by simp
  have "brent_p bs \<le> brent_q bs * (br_a bs - br_x bs)
          \<longleftrightarrow> brent_p bs / brent_q bs \<le> br_a bs - br_x bs"
    using q by (simp add: field_simps)
  moreover have "brent_p bs \<ge> brent_q bs * (br_b bs - br_x bs)
          \<longleftrightarrow> brent_p bs / brent_q bs \<ge> br_b bs - br_x bs"
    using q by (simp add: field_simps)
  ultimately show ?thesis by (auto simp: brent_fit_bad_def)
qed

lemma brent_loop_returns:
  "(\<And>u s. func u s \<noteq> None) \<Longrightarrow> brent_loop func tol n bs st \<noteq> None"
proof (induction n arbitrary: bs st)
  case 0
  show ?case by simp
next
  case (Suc n)
  show ?case
  proof (cases "brent_converged tol bs")
    case True
    then show ?thesis by simp
  next
    case False
    obtain fu st' where f: "func (brent_trial tol bs (fst (brent_step tol bs))) st = Some (fu, st')"
      using Suc.prems[of "brent_trial tol bs (fst (brent_step tol bs))" st] by auto
    show ?thesis
      using False f Suc.IH[OF Suc.prems] by (simp add: brent_pass_def Let_def)
  qed
qed

lemma brent_step_explicit:
  "brent_step tol bs =
     (if \<bar>br_e bs\<bar> > tol * \<bar>br_x bs\<bar> + 1 / 10 ^ 10
         \<and> \<bar>brent_p bs\<bar> < \<bar>brent_q bs * br_e bs / 2\<bar>
         \<and> br_a bs - br_x bs < brent_p bs / brent_q bs
         \<and> brent_p bs / brent_q bs < br_b bs - br_x bs
      then (if br_x bs + brent_p bs / brent_q bs - br_a bs < 2 * (tol * \<bar>br_x bs\<bar> + 1 / 10 ^ 10)
               \<or> br_b bs - (br_x bs + brent_p bs / brent_q bs) < 2 * (tol * \<bar>br_x bs\<bar> + 1 / 10 ^ 10)
            then brent_sign (tol * \<bar>br_x bs\<bar> + 1 / 10 ^ 10) ((br_a bs + br_b bs) / 2 - br_x bs)
            else brent_p bs / brent_q bs, br_d bs)
      else (3819660 / 10 ^ 7 * (if br_x bs \<ge> (br_a bs + br_b bs) / 2 then br_a bs - br_x bs
                                 else br_b bs - br_x bs),
            if br_x bs \<ge> (br_a bs + br_b bs) / 2 then br_a bs - br_x bs else br_b bs - br_x bs))"
  using brent_fit_good_iff[of bs]
  by (auto simp: brent_step_def brent_tol1_def brent_tol2_def brent_zeps_def brent_cgold_def
        brent_golden_def brent_parabolic_def brent_xm_def Let_def)

lemma brent_pq_explicit:
  "brent_p bs =
     (if 2 * ((br_x bs - br_v bs) * (br_fx bs - br_fw bs) - (br_x bs - br_w bs) * (br_fx bs - br_fv bs)) > 0
      then - ((br_x bs - br_v bs) * ((br_x bs - br_v bs) * (br_fx bs - br_fw bs))
                - (br_x bs - br_w bs) * ((br_x bs - br_w bs) * (br_fx bs - br_fv bs)))
      else (br_x bs - br_v bs) * ((br_x bs - br_v bs) * (br_fx bs - br_fw bs))
                - (br_x bs - br_w bs) * ((br_x bs - br_w bs) * (br_fx bs - br_fv bs)))"
  "brent_q bs =
     \<bar>2 * ((br_x bs - br_v bs) * (br_fx bs - br_fw bs) - (br_x bs - br_w bs) * (br_fx bs - br_fv bs))\<bar>"
  by (simp_all add: brent_p_def brent_q_def Let_def)

lemma brent_update_explicit:
  "br_x (brent_update bs u fu) = (if fu \<le> br_fx bs then u else br_x bs)"
  "br_fx (brent_update bs u fu) = (if fu \<le> br_fx bs then fu else br_fx bs)"
  "br_a (brent_update bs u fu) =
     (if fu \<le> br_fx bs then (if u \<ge> br_x bs then br_x bs else br_a bs)
      else (if u < br_x bs then u else br_a bs))"
  "br_b (brent_update bs u fu) =
     (if fu \<le> br_fx bs then (if u \<ge> br_x bs then br_b bs else br_x bs)
      else (if u < br_x bs then br_b bs else u))"
  "br_d (brent_update bs u fu) = br_d bs" "br_e (brent_update bs u fu) = br_e bs"
  by (simp_all add: brent_update_def Let_def)

lemma brent_loop_pass:
  "brent_loop func tol (Suc n) bs st =
     (if \<bar>br_x bs - (br_a bs + br_b bs) / 2\<bar>
           \<le> 2 * (tol * \<bar>br_x bs\<bar> + 1 / 10 ^ 10) - (br_b bs - br_a bs) / 2
      then Some ((br_x bs, br_fx bs), st)
      else (case func (if \<bar>fst (brent_step tol bs)\<bar> \<ge> tol * \<bar>br_x bs\<bar> + 1 / 10 ^ 10
                       then br_x bs + fst (brent_step tol bs)
                       else br_x bs + brent_sign (tol * \<bar>br_x bs\<bar> + 1 / 10 ^ 10)
                                        (fst (brent_step tol bs))) st of
              None \<Rightarrow> None
            | Some (fu, st') \<Rightarrow>
                brent_loop func tol n
                  (brent_update (bs\<lparr> br_d := fst (brent_step tol bs), br_e := snd (brent_step tol bs) \<rparr>)
                     (if \<bar>fst (brent_step tol bs)\<bar> \<ge> tol * \<bar>br_x bs\<bar> + 1 / 10 ^ 10
                       then br_x bs + fst (brent_step tol bs)
                       else br_x bs + brent_sign (tol * \<bar>br_x bs\<bar> + 1 / 10 ^ 10)
                                        (fst (brent_step tol bs))) fu) st'))"
  by (simp add: brent_converged_def brent_xm_def brent_tol2_def brent_tol1_def brent_zeps_def
        brent_pass_def brent_trial_def Let_def split: option.splits)

text \<open>
  C7, as stated, at a concrete input: \<open>brent\<close> with the bracket (-1, 0, 1), the function
  u * u and tol = 0.001. The first two passes are golden section steps to -0.381966 and
  0.381966; they lead to the state with a = v = -0.381966, b = w = 0.381966, x = 0, d =
  0.381966 and e = 1. There tol1 = 1e-10, the step before last exceeds it, p = 0 and q > 0:
  |p| is less than |q e / 2| and p/q = 0 lies in (a - x, b - x), but the magnitude of the
  step p/q is below tol1. According to the claim this is one of the other cases and a
  golden section step is taken. The code takes the parabolic step: d = p/q = 0 and e
  becomes the old d; the trial point is x.
\<close>

theorem brent_small_parabolic_step_counterexample:
  "Option.bind (brent_pass (\<lambda>u st. Some (u * u, st)) 0.001 (brent_init (- 1, 0, 1) 0) ())
       (\<lambda>r. brent_pass (\<lambda>u st. Some (u * u, st)) 0.001 (fst r) (snd r))
     = Some (brent_after_two_passes, ())
   \<and> \<bar>br_e brent_after_two_passes\<bar> > brent_tol1 0.001 brent_after_two_passes
   \<and> \<bar>brent_p brent_after_two_passes\<bar>
        < \<bar>brent_q brent_after_two_passes * br_e brent_after_two_passes / 2\<bar>
   \<and> br_a brent_after_two_passes - br_x brent_after_two_passes
        < brent_p brent_after_two_passes / brent_q brent_after_two_passes
   \<and> brent_p brent_after_two_passes / brent_q brent_after_two_passes
        < br_b brent_after_two_passes - br_x brent_after_two_passes
   \<and> \<not> (\<bar>brent_p brent_after_two_passes / brent_q brent_after_two_passes\<bar>
           \<ge> brent_tol1 0.001 brent_after_two_passes)
   \<and> brent_step 0.001 brent_after_two_passes = (0, 3819660 / 10 ^ 7)
   \<and> brent_golden brent_after_two_passes
        = (- (3819660 / 10 ^ 7 * (3819660 / 10 ^ 7)), - (3819660 / 10 ^ 7))
   \<and> brent_trial 0.001 brent_after_two_passes (fst (brent_step 0.001 brent_after_two_passes)) = 0"
proof -
  have run: "Option.bind
       (brent_pass (\<lambda>u st. Some (u * u, st)) 0.001 (brent_init (- 1, 0, 1) 0) ())
       (\<lambda>r. brent_pass (\<lambda>u st. Some (u * u, st)) 0.001 (fst r) (snd r))
     = Some (brent_after_two_passes, ())"
    by (simp add: brent_pass_def brent_init_def brent_step_def brent_tol1_def brent_zeps_def
          brent_golden_def brent_xm_def brent_cgold_def brent_trial_def brent_update_def Let_def
          brent_fit_bad_def brent_p_def brent_q_def brent_after_two_passes_def power2_eq_square)
  have pq: "brent_p brent_after_two_passes = 0" "brent_q brent_after_two_passes > 0"
    "brent_tol1 0.001 brent_after_two_passes = 1 / 10 ^ 10"
    by (simp_all add: brent_p_def brent_q_def Let_def brent_after_two_passes_def brent_tol1_def
          brent_zeps_def)
  have sel: "br_a brent_after_two_passes = - (3819660 / 10 ^ 7)"
    "br_b brent_after_two_passes = 3819660 / 10 ^ 7" "br_x brent_after_two_passes = 0"
    "br_e brent_after_two_passes = 1" "br_d brent_after_two_passes = 3819660 / 10 ^ 7"
    by (simp_all add: brent_after_two_passes_def)
  have st: "brent_step 0.001 brent_after_two_passes = (0, 3819660 / 10 ^ 7)"
    using pq
    by (simp add: brent_step_def brent_fit_bad_def brent_parabolic_def brent_tol2_def sel
          brent_xm_def)
  have go: "brent_golden brent_after_two_passes
        = (- (3819660 / 10 ^ 7 * (3819660 / 10 ^ 7)), - (3819660 / 10 ^ 7))"
    by (simp add: brent_golden_def brent_xm_def brent_cgold_def sel)
  have tr: "brent_trial 0.001 brent_after_two_passes
              (fst (brent_step 0.001 brent_after_two_passes)) = 0"
    unfolding st using pq by (simp add: brent_trial_def brent_sign_def sel)
  have c: "\<bar>br_e brent_after_two_passes\<bar> > brent_tol1 0.001 brent_after_two_passes"
    "\<bar>brent_p brent_after_two_passes\<bar>
        < \<bar>brent_q brent_after_two_passes * br_e brent_after_two_passes / 2\<bar>"
    "br_a brent_after_two_passes - br_x brent_after_two_passes
        < brent_p brent_after_two_passes / brent_q brent_after_two_passes"
    "brent_p brent_after_two_passes / brent_q brent_after_two_passes
        < br_b brent_after_two_passes - br_x brent_after_two_passes"
    "\<not> (\<bar>brent_p brent_after_two_passes / brent_q brent_after_two_passes\<bar>
           \<ge> brent_tol1 0.001 brent_after_two_passes)"
    using pq by (simp_all add: sel)
  from run c st go tr show ?thesis by (intro conjI)
qed

text \<open>
  C7, amended. With cgold = 0.3819660 and zeps = 1e-10, \<open>brent\<close> evaluates the function
  at the middle point of the bracket and enters the loop with a, b the ends of the
  bracket, x = v = w the middle point and d = e = 0. With no pass left the loop returns
  [x, fx]. A pass computes xm = (a + b)/2, tol1 = tol |x| + zeps and tol2 = 2 tol1, and
  returns [x, fx] without an evaluation when |x - xm| is at most tol2 - (b - a)/2.
  Otherwise the step is the parabolic one exactly when the step before last, e, exceeds
  tol1 in magnitude, |p| is less than |q e / 2| and p/q lies in (a - x, b - x); in every
  other case it is the golden section step d = cgold e with e = a - x if x is at least xm
  and e = b - x otherwise. The parabolic step is d = p/q, replaced by sign(tol1, xm - x)
  when x + p/q is within tol2 of a or of b, and e becomes the old d. Whatever the step d,
  the function is evaluated once, at u = x + d when |d| is at least tol1 and at
  u = x + sign(tol1, d) otherwise: a parabolic step below tol1 is not replaced by a golden
  section step. The loop goes on with the updated bracket, in which x is the better of u
  and the old x and u or the old x is a new end; an error of the function is passed on.
  If the function returns for every argument, so does \<open>brent\<close>.
\<close>

theorem brent_pass_characterisation:
  "brent_cgold = 0.3819660 \<and> brent_zeps = 1 / 10 ^ 10
   \<and> brent (k0, k1, k2) func tol itermax st =
       (case func k1 st of
          None \<Rightarrow> None
        | Some (f1, st') \<Rightarrow>
            brent_loop func tol itermax
              \<lparr> br_a = min k0 k2, br_b = max k0 k2, br_d = 0, br_e = 0, br_v = k1, br_w = k1,
                br_x = k1, br_fv = f1, br_fw = f1, br_fx = f1 \<rparr> st')
   \<and> brent_loop func tol 0 bs st = Some ((br_x bs, br_fx bs), st)
   \<and> brent_loop func tol (Suc n) bs st =
       (let a = br_a bs; b = br_b bs; x = br_x bs; xm = (a + b) / 2;
            tol1 = tol * \<bar>x\<bar> + 1 / 10 ^ 10; tol2 = 2 * tol1;
            r = (x - br_w bs) * (br_fx bs - br_fv bs);
            q0 = (x - br_v bs) * (br_fx bs - br_fw bs);
            p = (if 2 * (q0 - r) > 0 then - ((x - br_v bs) * q0 - (x - br_w bs) * r)
                 else (x - br_v bs) * q0 - (x - br_w bs) * r);
            q = \<bar>2 * (q0 - r)\<bar>;
            eg = (if x \<ge> xm then a - x else b - x);
            parabolic = (\<bar>br_e bs\<bar> > tol1 \<and> \<bar>p\<bar> < \<bar>q * br_e bs / 2\<bar>
                          \<and> a - x < p / q \<and> p / q < b - x);
            d = (if parabolic
                 then (if x + p / q - a < tol2 \<or> b - (x + p / q) < tol2
                       then brent_sign tol1 (xm - x) else p / q)
                 else 0.3819660 * eg);
            e = (if parabolic then br_d bs else eg);
            u = (if \<bar>d\<bar> \<ge> tol1 then x + d else x + brent_sign tol1 d)
        in if \<bar>x - xm\<bar> \<le> tol2 - (b - a) / 2 then Some ((x, br_fx bs), st)
           else (case func u st of
                   None \<Rightarrow> None
                 | Some (fu, st') \<Rightarrow>
                     brent_loop func tol n (brent_update (bs\<lparr> br_d := d, br_e := e \<rparr>) u fu) st'))
   \<and> br_x (brent_update bs u fu) = (if fu \<le> br_fx bs then u else br_x bs)
   \<and> br_fx (brent_update bs u fu) = (if fu \<le> br_fx bs then fu else br_fx bs)
   \<and> br_a (brent_update bs u fu) =
       (if fu \<le> br_fx bs then (if u \<ge> br_x bs then br_x bs else br_a bs)
        else (if u < br_x bs then u else br_a bs))
   \<and> br_b (brent_update bs u fu) =
       (if fu \<le> br_fx bs then (if u \<ge> br_x bs then br_b bs else br_x bs)
        else (if u < br_x bs then br_b bs else u))
   \<and> ((\<forall>u s. func u s \<noteq> None) \<longrightarrow> brent (k0, k1, k2) func tol itermax st \<noteq> None)"
proof -
  have c1: "brent_cgold = 0.3819660" "brent_zeps = 1 / 10 ^ 10"
    by (simp_all add: brent_cgold_def brent_zeps_def)
  have c2: "brent (k0, k1, k2) func tol itermax st =
       (case func k1 st of
          None \<Rightarrow> None
        | Some (f1, st') \<Rightarrow>
            brent_loop func tol itermax
              \<lparr> br_a = min k0 k2, br_b = max k0 k2, br_d = 0, br_e = 0, br_v = k1, br_w = k1,
                br_x = k1, br_fv = f1, br_fw = f1, br_fx = f1 \<rparr> st')"
    by (simp add: brent_def brent_init_def min_def max_def split: option.splits)
  have c3: "brent_loop func tol 0 bs st = Some ((br_x bs, br_fx bs), st)" by simp
  have c5: "brent (k0, k1, k2) func tol itermax st \<noteq> None" if "\<forall>u s. func u s \<noteq> None"
  proof -
    from that[rule_format, of k1 st] obtain f1 st' where "func k1 st = Some (f1, st')"
      by (cases "func k1 st") auto
    then show ?thesis using brent_loop_returns[of func tol itermax _ st'] that
      by (simp add: brent_def)
  qed
  have de: "brent_step tol bs = ((if (\<bar>br_e bs\<bar> > (tol * \<bar>br_x bs\<bar> + 1 / 10 ^ 10) \<and> \<bar>brent_p bs\<bar> < \<bar>brent_q bs * br_e bs / 2\<bar> \<and> br_a bs - br_x bs < brent_p bs / brent_q bs \<and> brent_p bs / brent_q bs < br_b bs - br_x bs) then (if br_x bs + brent_p bs / brent_q bs - br_a bs < (2 * (tol * \<bar>br_x bs\<bar> + 1 / 10 ^ 10)) \<or> br_b bs - (br_x bs + brent_p bs / brent_q bs) < (2 * (tol * \<bar>br_x bs\<bar> + 1 / 10 ^ 10)) then brent_sign (tol * \<bar>br_x bs\<bar> + 1 / 10 ^ 10) (((br_a bs + br_b bs) / 2) - br_x bs) else brent_p bs / brent_q bs) else 0.3819660 * (if br_x bs \<ge> ((br_a bs + br_b bs) / 2) then br_a bs - br_x bs else br_b bs - br_x bs)), (if (\<bar>br_e bs\<bar> > (tol * \<bar>br_x bs\<bar> + 1 / 10 ^ 10) \<and> \<bar>brent_p bs\<bar> < \<bar>brent_q bs * br_e bs / 2\<bar> \<and> br_a bs - br_x bs < brent_p bs / brent_q bs \<and> brent_p bs / brent_q bs < br_b bs - br_x bs) then br_d bs else (if br_x bs \<ge> ((br_a bs + br_b bs) / 2) then br_a bs - br_x bs else br_b bs - br_x bs)))"
    unfolding brent_step_explicit by (simp cong: if_cong)
  have c4: "brent_loop func tol (Suc n) bs st =
     (if \<bar>br_x bs - ((br_a bs + br_b bs) / 2)\<bar> \<le> (2 * (tol * \<bar>br_x bs\<bar> + 1 / 10 ^ 10)) - (br_b bs - br_a bs) / 2
      then Some ((br_x bs, br_fx bs), st)
      else (case func (if \<bar>(if (\<bar>br_e bs\<bar> > (tol * \<bar>br_x bs\<bar> + 1 / 10 ^ 10) \<and> \<bar>brent_p bs\<bar> < \<bar>brent_q bs * br_e bs / 2\<bar> \<and> br_a bs - br_x bs < brent_p bs / brent_q bs \<and> brent_p bs / brent_q bs < br_b bs - br_x bs) then (if br_x bs + brent_p bs / brent_q bs - br_a bs < (2 * (tol * \<bar>br_x bs\<bar> + 1 / 10 ^ 10)) \<or> br_b bs - (br_x bs + brent_p bs / brent_q bs) < (2 * (tol * \<bar>br_x bs\<bar> + 1 / 10 ^ 10)) then brent_sign (tol * \<bar>br_x bs\<bar> + 1 / 10 ^ 10) (((br_a bs + br_b bs) / 2) - br_x bs) else brent_p bs / brent_q bs) else 0.3819660 * (if br_x bs \<ge> ((br_a bs + br_b bs) / 2) then br_a bs - br_x bs else br_b bs - br_x bs))\<bar> \<ge> (tol * \<bar>br_x bs\<bar> + 1 / 10 ^ 10) then br_x bs + (if (\<bar>br_e bs\<bar> > (tol * \<bar>br_x bs\<bar> + 1 / 10 ^ 10) \<and> \<bar>brent_p bs\<bar> < \<bar>brent_q bs * br_e bs / 2\<bar> \<and> br_a bs - br_x bs < brent_p bs / brent_q bs \<and> brent_p bs / brent_q bs < br_b bs - br_x bs) then (if br_x bs + brent_p bs / brent_q bs - br_a bs < (2 * (tol * \<bar>br_x bs\<bar> + 1 / 10 ^ 10)) \<or> br_b bs - (br_x bs + brent_p bs / brent_q bs) < (2 * (tol * \<bar>br_x bs\<bar> + 1 / 10 ^ 10)) then brent_sign (tol * \<bar>br_x bs\<bar> + 1 / 10 ^ 10) (((br_a bs + br_b bs) / 2) - br_x bs) else brent_p bs / brent_q bs) else 0.3819660 * (if br_x bs \<ge> ((br_a bs + br_b bs) / 2) then br_a bs - br_x bs else br_b bs - br_x bs)) else br_x bs + brent_sign (tol * \<bar>br_x bs\<bar> + 1 / 10 ^ 10) (if (\<bar>br_e bs\<bar> > (tol * \<bar>br_x bs\<bar> + 1 / 10 ^ 10) \<and> \<bar>brent_p bs\<bar> < \<bar>brent_q bs * br_e bs / 2\<bar> \<and> br_a bs - br_x bs < brent_p bs / brent_q bs \<and> brent_p bs / brent_q bs < br_b bs - br_x bs) then (if br_x bs + brent_p bs / brent_q bs - br_a bs < (2 * (tol * \<bar>br_x bs\<bar> + 1 / 10 ^ 10)) \<or> br_b bs - (br_x bs + brent_p bs / brent_q bs) < (2 * (tol * \<bar>br_x bs\<bar> + 1 / 10 ^ 10)) then brent_sign (tol * \<bar>br_x bs\<bar> + 1 / 10 ^ 10) (((br_a bs + br_b bs) / 2) - br_x bs) else brent_p bs / brent_q bs) else 0.3819660 * (if br_x bs \<ge> ((br_a bs + br_b bs) / 2) then br_a bs - br_x bs else br_b bs - br_x bs))) st of
              None \<Rightarrow> None
            | Some (fu, st') \<Rightarrow>
                brent_loop func tol n (brent_update (bs\<lparr> br_d := (if (\<bar>br_e bs\<bar> > (tol * \<bar>br_x bs\<bar> + 1 / 10 ^ 10) \<and> \<bar>brent_p bs\<bar> < \<bar>brent_q bs * br_e bs / 2\<bar> \<and> br_a bs - br_x bs < brent_p bs / brent_q bs \<and> brent_p bs / brent_q bs < br_b bs - br_x bs) then (if br_x bs + brent_p bs / brent_q bs - br_a bs < (2 * (tol * \<bar>br_x bs\<bar> + 1 / 10 ^ 10)) \<or> br_b bs - (br_x bs + brent_p bs / brent_q bs) < (2 * (tol * \<bar>br_x bs\<bar> + 1 / 10 ^ 10)) then brent_sign (tol * \<bar>br_x bs\<bar> + 1 / 10 ^ 10) (((br_a bs + br_b bs) / 2) - br_x bs) else brent_p bs / brent_q bs) else 0.3819660 * (if br_x bs \<ge> ((br_a bs + br_b bs) / 2) then br_a bs - br_x bs else br_b bs - br_x bs)), br_e := (if (\<bar>br_e bs\<bar> > (tol * \<bar>br_x bs\<bar> + 1 / 10 ^ 10) \<and> \<bar>brent_p bs\<bar> < \<bar>brent_q bs * br_e bs / 2\<bar> \<and> br_a bs - br_x bs < brent_p bs / brent_q bs \<and> brent_p bs / brent_q bs < br_b bs - br_x bs) then br_d bs else (if br_x bs \<ge> ((br_a bs + br_b bs) / 2) then br_a bs - br_x bs else br_b bs - br_x bs)) \<rparr>) (if \<bar>(if (\<bar>br_e bs\<bar> > (tol * \<bar>br_x bs\<bar> + 1 / 10 ^ 10) \<and> \<bar>brent_p bs\<bar> < \<bar>brent_q bs * br_e bs / 2\<bar> \<and> br_a bs - br_x bs < brent_p bs / brent_q bs \<and> brent_p bs / brent_q bs < br_b bs - br_x bs) then (if br_x bs + brent_p bs / brent_q bs - br_a bs < (2 * (tol * \<bar>br_x bs\<bar> + 1 / 10 ^ 10)) \<or> br_b bs - (br_x bs + brent_p bs / brent_q bs) < (2 * (tol * \<bar>br_x bs\<bar> + 1 / 10 ^ 10)) then brent_sign (tol * \<bar>br_x bs\<bar> + 1 / 10 ^ 10) (((br_a bs + br_b bs) / 2) - br_x bs) else brent_p bs / brent_q bs) else 0.3819660 * (if br_x bs \<ge> ((br_a bs + br_b bs) / 2) then br_a bs - br_x bs else br_b bs - br_x bs))\<bar> \<ge> (tol * \<bar>br_x bs\<bar> + 1 / 10 ^ 10) then br_x bs + (if (\<bar>br_e bs\<bar> > (tol * \<bar>br_x bs\<bar> + 1 / 10 ^ 10) \<and> \<bar>brent_p bs\<bar> < \<bar>brent_q bs * br_e bs / 2\<bar> \<and> br_a bs - br_x bs < brent_p bs / brent_q bs \<and> brent_p bs / brent_q bs < br_b bs - br_x bs) then (if br_x bs + brent_p bs / brent_q bs - br_a bs < (2 * (tol * \<bar>br_x bs\<bar> + 1 / 10 ^ 10)) \<or> br_b bs - (br_x bs + brent_p bs / brent_q bs) < (2 * (tol * \<bar>br_x bs\<bar> + 1 / 10 ^ 10)) then brent_sign (tol * \<bar>br_x bs\<bar> + 1 / 10 ^ 10) (((br_a bs + br_b bs) / 2) - br_x bs) else brent_p bs / brent_q bs) else 0.3819660 * (if br_x bs \<ge> ((br_a bs + br_b bs) / 2) then br_a bs - br_x bs else br_b bs - br_x bs)) else br_x bs + brent_sign (tol * \<bar>br_x bs\<bar> + 1 / 10 ^ 10) (if (\<bar>br_e bs\<bar> > (tol * \<bar>br_x bs\<bar> + 1 / 10 ^ 10) \<and> \<bar>brent_p bs\<bar> < \<bar>brent_q bs * br_e bs / 2\<bar> \<and> br_a bs - br_x bs < brent_p bs / brent_q bs \<and> brent_p bs / brent_q bs < br_b bs - br_x bs) then (if br_x bs + brent_p bs / brent_q bs - br_a bs < (2 * (tol * \<bar>br_x bs\<bar> + 1 / 10 ^ 10)) \<or> br_b bs - (br_x bs + brent_p bs / brent_q bs) < (2 * (tol * \<bar>br_x bs\<bar> + 1 / 10 ^ 10)) then brent_sign (tol * \<bar>br_x bs\<bar> + 1 / 10 ^ 10) (((br_a bs + br_b bs) / 2) - br_x bs) else brent_p bs / brent_q bs) else 0.3819660 * (if br_x bs \<ge> ((br_a bs + br_b bs) / 2) then br_a bs - br_x bs else br_b bs - br_x bs))) fu) st'))"
    unfolding brent_loop_pass de fst_conv snd_conv ..
  note c4x = c4[unfolded brent_pq_explicit]
  show ?thesis
    unfolding Let_def
    apply (intro conjI impI)
    apply (rule c1 c2 c3 c4x brent_update_explicit c5, assumption?)+
    done
qed

theorem brent_pass_characterisation_witness:
  "brent_loop (\<lambda>u st. Some (u * u, st @ [u])) 0 (Suc 0)
      \<lparr> br_a = - 1, br_b = 1, br_d = 1 / 2, br_e = 1, br_v = - 1, br_w = 1,
        br_x = 0, br_fv = 1 + 4 / 10 ^ 11, br_fw = 1, br_fx = 0 \<rparr> []
     = Some ((0, 0), [1 / 10 ^ 10])
   \<and> brent (- 1, 0, 1) (\<lambda>u st. Some (u * u, st @ [u])) 0 3 [] \<noteq> None"
proof -
  let ?c = "\<lparr> br_a = - 1, br_b = 1, br_d = 1 / 2, br_e = 1, br_v = - 1, br_w = 1,
              br_x = 0, br_fv = 1 + 4 / 10 ^ 11, br_fw = 1, br_fx = (0::real) \<rparr>"
  let ?f = "\<lambda>(u::real) (st::real list). Some (u * u, st @ [u])"
  note t = brent_pass_characterisation[where func = ?f and tol = 0 and bs = ?c and n = 0
      and st = "[]" and ?k0.0 = "- 1" and ?k1.0 = 0 and ?k2.0 = 1 and itermax = 3]
  have "brent_loop ?f 0 (Suc 0) ?c [] = Some ((0, 0), [1 / 10 ^ 10])"
    using t by (simp add: Let_def brent_sign_def brent_update_def)
  moreover have "brent (- 1, 0, 1) ?f 0 3 [] \<noteq> None"
    using t by blast
  ultimately show ?thesis by simp
qed

subsection \<open>Conversion of a dictionary of keys to compressed columns\<close>











































end
